theory Spec2Isabelle
  imports Complex_Main
begin

section \<open>The HDA API helper functions of hda_api_functions.ipynb\<close>

text \<open>
  The notebook defines a chain of helper functions around a remote HTTP service:
  \<open>generate_api_key\<close>, \<open>get_request_status\<close>, \<open>get_order_ids\<close>,
  \<open>get_order_status\<close>, \<open>downloadFile\<close>, \<open>get_filename_from_cd\<close>,
  \<open>get_filenames\<close> and \<open>download_data\<close> are embedded here. Everything outside the
  Python process (the HTTP service, the process clock, the file system, standard output)
  is explicit: an environment \<open>env\<close> fixes how the outside answers, and a \<open>world\<close>
  value is threaded through every function and returned updated. A Python exception is
  a value \<open>Inl e\<close>, returned with the world as it is when the exception is raised (and
  with the session dictionary, from the one function that updates it); a loop that may
  spin forever returns \<open>None\<close>. Every HTTP request gets a response
  (connection errors are outside the model); whether a file can be opened for writing is
  the environment's answer, and writing to an open file succeeds.
\<close>

subsection \<open>Python values and exceptions\<close>

text \<open>
  The values \<open>json.loads\<close> produces: \<open>None\<close>, booleans, integers, strings, lists and
  dictionaries (in insertion order, keys distinct). JSON numbers are the integers (byte
  sizes); the floats the code computes are exact rationals, which is exact for the tests
  against zero that decide whether a division raises, and an \<open>int\<close> beyond the floats
  raises OverflowError where it would become one. A \<open>str\<close> that the code only joins,
  compares and prints (a URL, a file name, a status word) is a \<open>string\<close> of one-byte
  characters; \<open>generate_api_key\<close>, which encodes its arguments, takes a \<open>str\<close> as
  the list of its code points.
\<close>

datatype pyval =
    PNone
  | PBool bool
  | PInt int
  | PStr string
  | PList "pyval list"
  | PDict "(string \<times> pyval) list"

datatype py_error =
    KeyError
  | IndexError
  | TypeError
  | ZeroDivisionError
  | JSONDecodeError
  | UnboundLocalError
  | OverflowError
  | OSError
  | ValueError
  | UnicodeEncodeError
  | UnicodeDecodeError

text \<open>\<open>v[key]\<close> for a string key: only a dictionary can be subscripted by a string.\<close>

fun getitem :: "pyval \<Rightarrow> string \<Rightarrow> py_error + pyval" where
  "getitem (PDict kvs) k = (case map_of kvs k of None \<Rightarrow> Inl KeyError | Some v \<Rightarrow> Inr v)"
| "getitem _ k = Inl TypeError"

text \<open>
  \<open>for x in v\<close>: a list yields its elements, a dictionary its keys, a string its
  characters (strings of length one); anything else is not iterable.
\<close>

fun py_iter :: "pyval \<Rightarrow> py_error + pyval list" where
  "py_iter (PList xs) = Inr xs"
| "py_iter (PDict kvs) = Inr (map (\<lambda>kv. PStr (fst kv)) kvs)"
| "py_iter (PStr s) = Inr (map (\<lambda>c. PStr [c]) s)"
| "py_iter _ = Inl TypeError"

text \<open>The operand of \<open>"literal" + v\<close>: anything but a \<open>str\<close> raises TypeError.\<close>

fun as_str :: "pyval \<Rightarrow> py_error + string" where
  "as_str (PStr t) = Inr t"
| "as_str _ = Inl TypeError"

text \<open>A value used as a number (\<open>bool\<close> is a subclass of \<open>int\<close>).\<close>

fun as_number :: "pyval \<Rightarrow> py_error + int" where
  "as_number (PInt n) = Inr n"
| "as_number (PBool b) = Inr (if b then 1 else 0)"
| "as_number _ = Inl TypeError"

text \<open>\<open>int(x)\<close> on a float truncates towards zero.\<close>

definition py_int :: "rat \<Rightarrow> int" where
  "py_int x = (if 0 \<le> x then \<lfloor>x\<rfloor> else \<lceil>x\<rceil>)"

text \<open>
  An \<open>int\<close> becomes a float in \<open>int / int\<close> (the quotient) and in \<open>int // float\<close>
  (the left operand). The value is rounded to the nearest double, and one that rounds
  beyond the largest double raises OverflowError: that is a magnitude of at least
  \<open>2^1024 - 2^970\<close>, half a unit in the last place above the largest double.
\<close>

definition float_overflow :: "rat \<Rightarrow> bool" where
  "float_overflow x = (2 ^ 1024 - 2 ^ 970 \<le> \<bar>x\<bar>)"

text \<open>\<open>c * n\<close> for a one-character string: a negative count gives the empty string.\<close>

definition str_mul :: "char \<Rightarrow> int \<Rightarrow> string" where
  "str_mul c n = replicate (nat n) c"

text \<open>\<open>os.path.join(directory, file_name)\<close> on POSIX, for two components.\<close>

definition path_join :: "string \<Rightarrow> string \<Rightarrow> string" where
  "path_join directory file_name =
     (if file_name \<noteq> [] \<and> hd file_name = CHR ''/'' then file_name
      else if directory = [] \<or> last directory = CHR ''/'' then directory @ file_name
      else directory @ ''/'' @ file_name)"

subsection \<open>generate_api_key\<close>

text \<open>
  The function encodes a \<open>str\<close>, so here a \<open>str\<close> is the list of its code points
  (naturals below \<open>0x110000\<close>, surrogates included: Python keeps a lone surrogate in a
  \<open>str\<close>) and a \<open>bytes\<close> object is a \<open>string\<close> (a \<open>char\<close> is a byte).
\<close>

type_synonym pystr = "nat list"

definition is_str :: "pystr \<Rightarrow> bool" where
  "is_str s = (\<forall>c\<in>set s. c < 0x110000)"

definition surrogate :: "nat \<Rightarrow> bool" where
  "surrogate c = (0xD800 \<le> c \<and> c \<le> 0xDFFF)"

text \<open>
  \<open>str.encode(s)\<close>: UTF-8 with the error handler \<open>strict\<close>. A code point takes one to
  four bytes; a surrogate cannot be encoded and raises UnicodeEncodeError.
\<close>

definition utf8_char :: "nat \<Rightarrow> nat list" where
  "utf8_char c =
     (if c < 0x80 then [c]
      else if c < 0x800 then [0xC0 + c div 64, 0x80 + c mod 64]
      else if c < 0x10000 then [0xE0 + c div 4096, 0x80 + c div 64 mod 64, 0x80 + c mod 64]
      else [0xF0 + c div 262144, 0x80 + c div 4096 mod 64, 0x80 + c div 64 mod 64,
            0x80 + c mod 64])"

fun utf8_encode :: "pystr \<Rightarrow> py_error + nat list" where
  "utf8_encode [] = Inr []"
| "utf8_encode (c # cs) =
     (if surrogate c then Inl UnicodeEncodeError
      else (case utf8_encode cs of
              Inl err \<Rightarrow> Inl err
            | Inr bs \<Rightarrow> Inr (utf8_char c @ bs)))"

definition str_encode :: "pystr \<Rightarrow> py_error + string" where
  "str_encode s = (case utf8_encode s of Inl err \<Rightarrow> Inl err | Inr bs \<Rightarrow> Inr (map char_of bs))"

text \<open>
  \<open>b.decode()\<close>: UTF-8, strict. A lead byte announces the length of the sequence, the
  bytes after it are continuation bytes, and an overlong form, a surrogate or a value
  above \<open>0x10FFFF\<close> raises UnicodeDecodeError.
\<close>

definition continuation :: "nat \<Rightarrow> bool" where
  "continuation b = (0x80 \<le> b \<and> b < 0xC0)"

definition decoded :: "nat \<Rightarrow> py_error + pystr \<Rightarrow> py_error + pystr" where
  "decoded c rest = (case rest of Inl err \<Rightarrow> Inl err | Inr cs \<Rightarrow> Inr (c # cs))"

fun utf8_decode :: "nat list \<Rightarrow> py_error + pystr" where
  "utf8_decode [] = Inr []"
| "utf8_decode (b # bs) =
     (if b < 0x80 then decoded b (utf8_decode bs)
      else if 0xC2 \<le> b \<and> b < 0xE0 then
        (case bs of
           b1 # r \<Rightarrow>
             if continuation b1
             then decoded ((b - 0xC0) * 64 + (b1 - 0x80)) (utf8_decode r)
             else Inl UnicodeDecodeError
         | _ \<Rightarrow> Inl UnicodeDecodeError)
      else if 0xE0 \<le> b \<and> b < 0xF0 then
        (case bs of
           b1 # b2 # r \<Rightarrow>
             (let c = ((b - 0xE0) * 64 + (b1 - 0x80)) * 64 + (b2 - 0x80)
              in if continuation b1 \<and> continuation b2 \<and> 0x800 \<le> c \<and> \<not> surrogate c
                 then decoded c (utf8_decode r)
                 else Inl UnicodeDecodeError)
         | _ \<Rightarrow> Inl UnicodeDecodeError)
      else if 0xF0 \<le> b \<and> b < 0xF5 then
        (case bs of
           b1 # b2 # b3 # r \<Rightarrow>
             (let c = (((b - 0xF0) * 64 + (b1 - 0x80)) * 64 + (b2 - 0x80)) * 64 + (b3 - 0x80)
              in if continuation b1 \<and> continuation b2 \<and> continuation b3 \<and>
                    0x10000 \<le> c \<and> c < 0x110000
                 then decoded c (utf8_decode r)
                 else Inl UnicodeDecodeError)
         | _ \<Rightarrow> Inl UnicodeDecodeError)
      else Inl UnicodeDecodeError)"

definition bytes_decode :: "string \<Rightarrow> py_error + pystr" where
  "bytes_decode b = utf8_decode (map of_char b)"

text \<open>
  \<open>base64.b64encode\<close> with the standard alphabet (\<open>altchars=None\<close>), as RFC 4648
  defines it: three bytes give four sextets, a last group of one or two bytes is filled
  with zero bits and padded with \<open>=\<close>. \<open>b64decode\<close> is the decoding of a padded
  Base64 text; \<open>None\<close> stands for \<open>binascii.Error\<close>.
\<close>

definition b64_alphabet :: string where
  "b64_alphabet = ''ABCDEFGHIJKLMNOPQRSTUVWXYZabcdefghijklmnopqrstuvwxyz0123456789+/''"

definition b64_char :: "nat \<Rightarrow> char" where
  "b64_char i = b64_alphabet ! i"

fun index_of :: "'a \<Rightarrow> 'a list \<Rightarrow> nat option" where
  "index_of x [] = None"
| "index_of x (y # ys) = (if x = y then Some 0 else map_option Suc (index_of x ys))"

definition b64_index :: "char \<Rightarrow> nat option" where
  "b64_index c = index_of c b64_alphabet"

definition sextets :: "nat \<Rightarrow> nat \<Rightarrow> nat \<Rightarrow> nat list" where
  "sextets x y z = [x div 4, (x mod 4) * 16 + y div 16, (y mod 16) * 4 + z div 64, z mod 64]"

definition octets :: "nat \<Rightarrow> nat \<Rightarrow> nat \<Rightarrow> nat \<Rightarrow> nat list" where
  "octets i0 i1 i2 i3 = [i0 * 4 + i1 div 16, (i1 mod 16) * 16 + i2 div 4, (i2 mod 4) * 64 + i3]"

fun b64encode :: "string \<Rightarrow> string" where
  "b64encode [] = []"
| "b64encode [a] = map b64_char (take 2 (sextets (of_char a) 0 0)) @ ''==''"
| "b64encode [a, b] = map b64_char (take 3 (sextets (of_char a) (of_char b) 0)) @ ''=''"
| "b64encode (a # b # c # rest) =
     map b64_char (sextets (of_char a) (of_char b) (of_char c)) @ b64encode rest"

fun b64decode :: "string \<Rightarrow> string option" where
  "b64decode [] = Some []"
| "b64decode (c0 # c1 # c2 # c3 # rest) =
     (if c3 = CHR ''='' \<and> rest = [] then
        (if c2 = CHR ''='' then
           (case (b64_index c0, b64_index c1) of
              (Some i0, Some i1) \<Rightarrow> Some (map char_of (take 1 (octets i0 i1 0 0)))
            | _ \<Rightarrow> None)
         else
           (case (b64_index c0, b64_index c1, b64_index c2) of
              (Some i0, Some i1, Some i2) \<Rightarrow> Some (map char_of (take 2 (octets i0 i1 i2 0)))
            | _ \<Rightarrow> None))
      else
        (case (b64_index c0, b64_index c1, b64_index c2, b64_index c3) of
           (Some i0, Some i1, Some i2, Some i3) \<Rightarrow>
             map_option (\<lambda>r. map char_of (octets i0 i1 i2 i3) @ r) (b64decode rest)
         | _ \<Rightarrow> None))"
| "b64decode _ = None"

text \<open>
  \<^verbatim>\<open>s = username+':'+password\<close>
  \<^verbatim>\<open>return (base64.b64encode(str.encode(s), altchars=None)).decode()\<close>
  The colon is the code point \<open>0x3A\<close>.
\<close>

definition generate_api_key :: "pystr \<Rightarrow> pystr \<Rightarrow> py_error + pystr" where
  "generate_api_key username password =
     (let s = username @ [0x3A] @ password
      in case str_encode s of
           Inl err \<Rightarrow> Inl err
         | Inr b \<Rightarrow> bytes_decode (b64encode b))"

text \<open>
  The claim's words, ``Base64-decoding the key yields the string'':
  \<open>base64.b64decode(key).decode()\<close>. \<open>b64decode\<close> takes a \<open>str\<close> of ASCII characters
  only (ValueError otherwise; \<open>binascii.Error\<close> is a ValueError as well).
\<close>

definition key_decode :: "pystr \<Rightarrow> py_error + pystr" where
  "key_decode key =
     (if \<exists>c\<in>set key. 0x80 \<le> c then Inl ValueError
      else (case b64decode (map char_of key) of
              None \<Rightarrow> Inl ValueError
            | Some b \<Rightarrow> bytes_decode b))"

subsection \<open>get_filename_from_cd\<close>

text \<open>
  \<open>re.findall('filename=(.+)', cd)\<close>: the scan goes left to right; at each position the
  literal \<open>filename=\<close> must be followed by at least one character other than a newline
  (\<open>.\<close> without DOTALL), and \<open>.+\<close> is greedy, so the group runs to the end of the
  line. The scan resumes after the match. The list holds the groups. A header value is
  a string of one-byte characters, one \<open>char\<close> each.
\<close>

definition dot_run :: "string \<Rightarrow> string" where
  "dot_run s = takeWhile (\<lambda>c. c \<noteq> CHR 0x0A) s"

definition match_here :: "string \<Rightarrow> string option" where
  "match_here s =
     (if take 9 s = ''filename='' \<and> dot_run (drop 9 s) \<noteq> [] then Some (dot_run (drop 9 s))
      else None)"

function findall_filename :: "string \<Rightarrow> string list" where
  "findall_filename s =
     (if s = [] then []
      else (case match_here s of
              Some g \<Rightarrow> g # findall_filename (drop (9 + length g) s)
            | None \<Rightarrow> findall_filename (tl s)))"
  by pat_completeness auto
termination
  by (relation "measure length") (auto simp: match_here_def split: if_splits)

declare findall_filename.simps [simp del]

text \<open>\<open>s[2:-1]\<close>: without the first two characters and the last one.\<close>

definition slice_2_m1 :: "string \<Rightarrow> string" where
  "slice_2_m1 s = take (length s - 3) (drop 2 s)"

text \<open>
  \<^verbatim>\<open>if not cd: return None\<close>
  \<^verbatim>\<open>fname = re.findall('filename=(.+)', cd)\<close>
  \<^verbatim>\<open>if len(fname) == 0: return None\<close>
  \<^verbatim>\<open>return fname[0][2:-1]\<close>
  The argument is a header value: a string, or \<open>None\<close> when the header is absent.
\<close>

definition get_filename_from_cd :: "string option \<Rightarrow> string option" where
  "get_filename_from_cd cd =
     (case cd of
        None \<Rightarrow> None
      | Some s \<Rightarrow>
          if s = [] then None
          else (let fname = findall_filename s
                in if length fname = 0 then None else Some (slice_2_m1 (fname ! 0))))"

text \<open>
  The claim's words, stated on their own: \<open>cd\<close> contains a substring matching
  \<open>filename=(.+)\<close>, and the group of the first (leftmost) match.
\<close>

definition has_filename_match :: "string \<Rightarrow> bool" where
  "has_filename_match s =
     (\<exists>pre c rest. s = pre @ ''filename='' @ c # rest \<and> c \<noteq> CHR 0x0A)"

definition first_group :: "string \<Rightarrow> string \<Rightarrow> bool" where
  "first_group s g =
     (\<exists>pre rest. s = pre @ ''filename='' @ g @ rest \<and> g \<noteq> [] \<and>
        CHR 0x0A \<notin> set g \<and> (rest = [] \<or> hd rest = CHR 0x0A) \<and>
        (\<forall>pre' c rest'. s = pre' @ ''filename='' @ c # rest' \<and> c \<noteq> CHR 0x0A
            \<longrightarrow> length pre \<le> length pre'))"

text \<open>
  An auxiliary view of the scan, used in the proofs only: the group of the leftmost
  match, found by structural recursion on the text.
\<close>

fun first_match :: "string \<Rightarrow> string option" where
  "first_match [] = None"
| "first_match (c # cs) =
     (case match_here (c # cs) of Some g \<Rightarrow> Some g | None \<Rightarrow> first_match cs)"

subsection \<open>The outside world\<close>

text \<open>
  A response as the code reads it: \<open>status_code\<close>, the body as \<open>json.loads\<close> parses
  it (\<open>None\<close> when it is not JSON), and the chunks \<open>iter_content(n)\<close> yields for a
  requested chunk size \<open>n\<close>.
\<close>

type_synonym headers = "(string \<times> string) list"

record response =
  status_code :: int
  json_body :: "pyval option"
  iter_content :: "nat \<Rightarrow> string list"

datatype request =
    Get string headers
  | Post string headers pyval

text \<open>What \<open>print\<close> writes, one event per call; formatted numbers are kept as numbers.\<close>

datatype event =
    Print string
  | PrintVal pyval
  | PrintHeaders headers
  | PrintType
  | PrintUnexpected int
  | PrintFileSize rat
  | PrintProgress string rat
  | PrintDownloaded rat rat
  | PrintElapsed "rat option"

text \<open>
  The environment: the service answers a request knowing the requests made before it;
  \<open>clock k\<close> is the \<open>k\<close>-th reading of \<open>time.process_time()\<close>; \<open>realpath\<close> names the
  file a path string denotes; \<open>can_open\<close> tells whether \<open>open(path, 'wb')\<close> succeeds
  (the directory exists and may be written, the path is not a directory) or raises
  OSError.
\<close>

record env =
  transport :: "request list \<Rightarrow> request \<Rightarrow> response"
  clock :: "nat \<Rightarrow> rat"
  realpath :: "string \<Rightarrow> string"
  can_open :: "string \<Rightarrow> bool"

text \<open>
  The world: the HTTP exchanges so far, the printed output, the files (contents by
  file), the number of clock readings taken, and the calls of \<open>downloadFile\<close> so far
  with their arguments (url, headers, directory, file name, total length).
\<close>

type_synonym download_call = "string \<times> headers \<times> string \<times> pyval \<times> pyval"

record world =
  exchanges :: "(request \<times> response) list"
  out :: "event list"
  files :: "string \<rightharpoonup> string"
  ticks :: nat
  calls :: "download_call list"

definition http :: "env \<Rightarrow> request \<Rightarrow> world \<Rightarrow> response \<times> world" where
  "http e rq w =
     (let rs = transport e (map fst (exchanges w)) rq
      in (rs, w\<lparr>exchanges := exchanges w @ [(rq, rs)]\<rparr>))"

definition emit :: "event \<Rightarrow> world \<Rightarrow> world" where
  "emit ev w = w\<lparr>out := out w @ [ev]\<rparr>"

definition process_time :: "env \<Rightarrow> world \<Rightarrow> rat \<times> world" where
  "process_time e w = (clock e (ticks w), w\<lparr>ticks := Suc (ticks w)\<rparr>)"

text \<open>\<open>json.loads(response.text)[key]\<close>.\<close>

definition json_field :: "response \<Rightarrow> string \<Rightarrow> py_error + pyval" where
  "json_field r k =
     (case json_body r of None \<Rightarrow> Inl JSONDecodeError | Some j \<Rightarrow> getitem j k)"

subsection \<open>The session dictionary\<close>

text \<open>
  \<open>hda_dict\<close>: the keys \<open>init\<close> sets are always there; a key a later stage sets is
  \<open>None\<close> until then, and reading it raises KeyError.
\<close>

record hda =
  broker_endpoint :: string
  acceptTandC_address :: string
  accessToken_address :: string
  dataset_id :: string
  api_key :: string
  CONST_HTTP_SUCCESS_CODE :: int
  download_dir_path :: string
  headers :: "headers option"
  job_id :: "string option"
  results :: "pyval option"
  order_ids :: "pyval list option"
  order_sizes :: "pyval list option"
  order_status_response :: "response option"

text \<open>\<open>init\<close> (the directory it creates is outside the model).\<close>

definition init :: "string \<Rightarrow> string \<Rightarrow> string \<Rightarrow> hda" where
  "init dataset api_key_value download_dir =
     \<lparr>broker_endpoint = ''https://wekeo-broker.apps.mercator.dpi.wekeo.eu/databroker'',
      acceptTandC_address =
        ''https://wekeo-broker.apps.mercator.dpi.wekeo.eu/databroker''
          @ ''/termsaccepted/Copernicus_General_License'',
      accessToken_address =
        ''https://wekeo-broker.apps.mercator.dpi.wekeo.eu/databroker'' @ ''/gettoken'',
      dataset_id = dataset,
      api_key = api_key_value,
      CONST_HTTP_SUCCESS_CODE = 200,
      download_dir_path = download_dir,
      headers = None, job_id = None, results = None,
      order_ids = None, order_sizes = None, order_status_response = None\<rparr>"

subsection \<open>get_request_status and get_order_status\<close>

text \<open>
  \<^verbatim>\<open>status = "not started"\<close>
  \<^verbatim>\<open>while (status != "completed"):\<close>
  \<^verbatim>\<open>    response = requests.get(... + '/datarequest/status/' + hda_dict['job_id'], headers=...)\<close>
  \<^verbatim>\<open>    if (response.status_code == hda_dict['CONST_HTTP_SUCCESS_CODE']):\<close>
  \<^verbatim>\<open>        status = json.loads(response.text)['status']\<close>
  \<^verbatim>\<open>        print ("Query successfully submitted. Status is " + status)\<close>
  \<^verbatim>\<open>    else:\<close>
  \<^verbatim>\<open>        print("Error: Unexpected response {}".format(response))\<close>
  The loop state is \<open>status\<close>; the function returns nothing.
\<close>

partial_function (option) request_status_loop ::
  "env \<Rightarrow> hda \<Rightarrow> string \<Rightarrow> world \<Rightarrow> ((py_error + unit) \<times> world) option"
where
  "request_status_loop e h status w =
     (if status \<noteq> ''completed'' then
        (case job_id h of
           None \<Rightarrow> Some (Inl KeyError, w)
         | Some jid \<Rightarrow>
            (case headers h of
               None \<Rightarrow> Some (Inl KeyError, w)
             | Some hs \<Rightarrow>
                (case http e (Get (broker_endpoint h @ ''/datarequest/status/'' @ jid) hs) w of
                   (r, w1) \<Rightarrow>
                     if status_code r = CONST_HTTP_SUCCESS_CODE h then
                       (case json_field r ''status'' of
                          Inl err \<Rightarrow> Some (Inl err, w1)
                        | Inr v \<Rightarrow>
                           (case as_str v of
                              Inl err \<Rightarrow> Some (Inl err, w1)
                            | Inr s \<Rightarrow>
                                request_status_loop e h s
                                  (emit (Print (''Query successfully submitted. Status is '' @ s))
                                     w1)))
                     else request_status_loop e h status
                            (emit (PrintUnexpected (status_code r)) w1))))
      else Some (Inr (), w))"

definition get_request_status :: "env \<Rightarrow> hda \<Rightarrow> world \<Rightarrow> ((py_error + unit) \<times> world) option" where
  "get_request_status e h w = request_status_loop e h ''not started'' w"

text \<open>
  \<open>get_order_status\<close> is the same loop on \<open>/dataorder/status/\<close>; it returns the last
  response.
\<close>

partial_function (option) order_status_loop ::
  "env \<Rightarrow> hda \<Rightarrow> string \<Rightarrow> string \<Rightarrow> response option \<Rightarrow> world
     \<Rightarrow> ((py_error + response) \<times> world) option"
where
  "order_status_loop e h order_id status response w =
     (if status \<noteq> ''completed'' then
        (case headers h of
           None \<Rightarrow> Some (Inl KeyError, w)
         | Some hs \<Rightarrow>
            (case http e (Get (broker_endpoint h @ ''/dataorder/status/'' @ order_id) hs) w of
               (r, w1) \<Rightarrow>
                 if status_code r = CONST_HTTP_SUCCESS_CODE h then
                   (case json_field r ''status'' of
                      Inl err \<Rightarrow> Some (Inl err, w1)
                    | Inr v \<Rightarrow>
                       (case as_str v of
                          Inl err \<Rightarrow> Some (Inl err, w1)
                        | Inr s \<Rightarrow>
                            order_status_loop e h order_id s (Some r)
                              (emit (Print (''Query successfully submitted. Status is '' @ s))
                                 w1)))
                 else order_status_loop e h order_id status (Some r)
                        (emit (PrintUnexpected (status_code r)) w1)))
      else (case response of
              None \<Rightarrow> Some (Inl UnboundLocalError, w)
            | Some r \<Rightarrow> Some (Inr r, w)))"

definition get_order_status ::
  "env \<Rightarrow> hda \<Rightarrow> string \<Rightarrow> world \<Rightarrow> ((py_error + response) \<times> world) option" where
  "get_order_status e h order_id w = order_status_loop e h order_id ''not started'' None w"

subsection \<open>get_order_ids\<close>

text \<open>
  \<^verbatim>\<open>i = 0; order_ids = []; order_sizes = []\<close>
  \<^verbatim>\<open>for result in hda_dict['results']['content']:\<close>
  \<^verbatim>\<open>    data = {"jobId": hda_dict['job_id'], "uri": result['url']}\<close>
  \<^verbatim>\<open>    order_sizes.append(result['size'])\<close>
  \<^verbatim>\<open>    response = requests.post(... + '/dataorder', headers=..., json=data, verify=False)\<close>
  \<^verbatim>\<open>    if (response.status_code == hda_dict['CONST_HTTP_SUCCESS_CODE']):\<close>
  \<^verbatim>\<open>        order_ids.append(json.loads(response.text)['orderId'])\<close>
  \<^verbatim>\<open>        print ("Query successfully submitted. Order ID is " + order_ids[i])\<close>
  \<^verbatim>\<open>        response = get_order_status(hda_dict,order_ids[i])\<close>
  \<^verbatim>\<open>    else:\<close>
  \<^verbatim>\<open>        print("Error: Unexpected response {}".format(response))\<close>
  \<^verbatim>\<open>    i += 1\<close>
  The loop state is \<open>i\<close>, \<open>order_ids\<close>, \<open>order_sizes\<close> and \<open>response\<close> (unbound
  before the first iteration). \<open>order_ids[i]\<close> raises IndexError when the list is not
  longer than \<open>i\<close>. The body of the loop gives the new lists and the new response.
\<close>

definition order_body ::
  "env \<Rightarrow> hda \<Rightarrow> pyval \<Rightarrow> nat \<Rightarrow> pyval list \<Rightarrow> pyval list \<Rightarrow> world
     \<Rightarrow> ((py_error + pyval list \<times> pyval list \<times> response) \<times> world) option"
where
  "order_body e h result i ids sizes w =
     (case job_id h of
        None \<Rightarrow> Some (Inl KeyError, w)
      | Some jid \<Rightarrow>
         (case getitem result ''url'' of
            Inl err \<Rightarrow> Some (Inl err, w)
          | Inr uri \<Rightarrow>
             (case getitem result ''size'' of
                Inl err \<Rightarrow> Some (Inl err, w)
              | Inr size_value \<Rightarrow>
                 (case headers h of
                    None \<Rightarrow> Some (Inl KeyError, w)
                  | Some hs \<Rightarrow>
                     (case http e (Post (broker_endpoint h @ ''/dataorder'') hs
                                    (PDict [(''jobId'', PStr jid), (''uri'', uri)])) w of
                        (r, w1) \<Rightarrow>
                          if status_code r = CONST_HTTP_SUCCESS_CODE h then
                            (case json_field r ''orderId'' of
                               Inl err \<Rightarrow> Some (Inl err, w1)
                             | Inr oid \<Rightarrow>
                                if length (ids @ [oid]) \<le> i then Some (Inl IndexError, w1)
                                else
                                  (case as_str ((ids @ [oid]) ! i) of
                                     Inl err \<Rightarrow> Some (Inl err, w1)
                                   | Inr s \<Rightarrow>
                                      (case get_order_status e h s
                                              (emit (Print
                                                 (''Query successfully submitted. Order ID is ''
                                                    @ s)) w1) of
                                         None \<Rightarrow> None
                                       | Some (Inl err, w2) \<Rightarrow> Some (Inl err, w2)
                                       | Some (Inr r2, w2) \<Rightarrow>
                                           Some (Inr (ids @ [oid], sizes @ [size_value], r2),
                                                 w2))))
                          else
                            Some (Inr (ids, sizes @ [size_value], r),
                                  emit (PrintUnexpected (status_code r)) w1))))))"

text \<open>The loop runs the body on each result in turn and counts \<open>i\<close> up.\<close>

fun order_loop ::
  "env \<Rightarrow> hda \<Rightarrow> pyval list \<Rightarrow> nat \<Rightarrow> pyval list \<Rightarrow> pyval list \<Rightarrow> response option \<Rightarrow> world
     \<Rightarrow> ((py_error + pyval list \<times> pyval list \<times> response option) \<times> world) option"
where
  "order_loop e h [] i ids sizes response w = Some (Inr (ids, sizes, response), w)"
| "order_loop e h (result # rest) i ids sizes response w =
     (case order_body e h result i ids sizes w of
        None \<Rightarrow> None
      | Some (Inl err, w1) \<Rightarrow> Some (Inl err, w1)
      | Some (Inr (ids1, sizes1, r), w1) \<Rightarrow>
          order_loop e h rest (i + 1) ids1 sizes1 (Some r) w1)"

text \<open>
  After the loop the three results are stored, one after the other; \<open>response\<close> is
  still unbound when the loop body never ran, and the third assignment then raises. The
  dictionary is updated in place: when an exception ends the call, \<open>Inl\<close> carries the
  exception and the dictionary as the call leaves it.
\<close>

definition get_order_ids ::
  "env \<Rightarrow> hda \<Rightarrow> world \<Rightarrow> ((py_error \<times> hda + hda) \<times> world) option" where
  "get_order_ids e h w =
     (case results h of
        None \<Rightarrow> Some (Inl (KeyError, h), w)
      | Some res \<Rightarrow>
         (case getitem res ''content'' of
            Inl err \<Rightarrow> Some (Inl (err, h), w)
          | Inr content \<Rightarrow>
             (case py_iter content of
                Inl err \<Rightarrow> Some (Inl (err, h), w)
              | Inr rs \<Rightarrow>
                 (case order_loop e h rs 0 [] [] None w of
                    None \<Rightarrow> None
                  | Some (Inl err, w1) \<Rightarrow> Some (Inl (err, h), w1)
                  | Some (Inr (ids, sizes, response), w1) \<Rightarrow>
                     (case response of
                        None \<Rightarrow>
                          Some (Inl (UnboundLocalError,
                                     h\<lparr>order_ids := Some ids, order_sizes := Some sizes\<rparr>), w1)
                      | Some r \<Rightarrow>
                          Some (Inr (h\<lparr>order_ids := Some ids, order_sizes := Some sizes,
                                       order_status_response := Some r\<rparr>), w1))))))"

subsection \<open>downloadFile\<close>

text \<open>\<open>f.write(chunk)\<close> appends to the open file.\<close>

definition file_write :: "string \<Rightarrow> string \<Rightarrow> world \<Rightarrow> world" where
  "file_write f chunk w =
     w\<lparr>files := (files w)(f \<mapsto> (case files w f of None \<Rightarrow> [] | Some old \<Rightarrow> old) @ chunk)\<rparr>"

text \<open>
  The body of the loop over the chunks, with the bytes downloaded so far \<open>dl\<close>; it
  gives the new \<open>dl\<close>:
  \<^verbatim>\<open>for chunk in r.iter_content(64738):\<close>
  \<^verbatim>\<open>    dl += len(chunk)\<close>
  \<^verbatim>\<open>    f.write(chunk)\<close>
  \<^verbatim>\<open>    if total_length is not None: # no content length header\<close>
  \<^verbatim>\<open>        done = int(50 * dl / total_length)\<close>
  \<^verbatim>\<open>        print("\r[%s%s]  %8.2f Mbps" % ('=' * done, ' ' * (50-done),\<close>
  \<^verbatim>\<open>              (dl//(time.process_time() - start))/(1024*1024)), end='', flush=True)\<close>
  \<^verbatim>\<open>    else:\<close>
  \<^verbatim>\<open>        if( dl % (1024)  == 0 ):\<close>
  \<^verbatim>\<open>            print("[%8.2f] MB downloaded, %8.2f kbps" % (dl / (1024 * 1024),\<close>
  \<^verbatim>\<open>                  (dl//(time.process_time() - start))/1024))\<close>
  Both divisions raise ZeroDivisionError on a zero divisor, and OverflowError when an
  \<open>int\<close> operand or quotient is beyond the floats. The arguments of \<open>print\<close> are
  evaluated from left to right; in \<open>dl // x\<close> the \<open>int\<close> is converted before \<open>x\<close> is
  tested for zero. Memory is not bounded: the bar of \<open>done\<close> characters is built
  whatever its length.
\<close>

definition chunk_body ::
  "env \<Rightarrow> string \<Rightarrow> rat \<Rightarrow> pyval \<Rightarrow> nat \<Rightarrow> string \<Rightarrow> world \<Rightarrow> (py_error + nat) \<times> world"
where
  "chunk_body e f start total_length dl chunk w =
     (let dl1 = dl + length chunk;
          w1 = file_write f chunk w
      in if total_length \<noteq> PNone then
           (case as_number total_length of
              Inl err \<Rightarrow> (Inl err, w1)
            | Inr n \<Rightarrow>
               if n = 0 then (Inl ZeroDivisionError, w1)
               else if float_overflow (50 * of_nat dl1 / of_int n) then (Inl OverflowError, w1)
               else
                 (let done = py_int (50 * of_nat dl1 / of_int n)
                  in case process_time e w1 of
                       (t, w2) \<Rightarrow>
                         if float_overflow (of_nat dl1) then (Inl OverflowError, w2)
                         else if t - start = 0 then (Inl ZeroDivisionError, w2)
                         else (Inr dl1,
                               emit (PrintProgress
                                       (str_mul CHR ''='' done @ str_mul CHR '' '' (50 - done))
                                       (of_int \<lfloor>of_nat dl1 / (t - start)\<rfloor> / (1024 * 1024)))
                                 w2)))
         else if dl1 mod 1024 = 0 then
           (if float_overflow (of_nat dl1 / (1024 * 1024)) then (Inl OverflowError, w1)
            else
              (case process_time e w1 of
                 (t, w2) \<Rightarrow>
                   if float_overflow (of_nat dl1) then (Inl OverflowError, w2)
                   else if t - start = 0 then (Inl ZeroDivisionError, w2)
                   else (Inr dl1,
                         emit (PrintDownloaded (of_nat dl1 / (1024 * 1024))
                                 (of_int \<lfloor>of_nat dl1 / (t - start)\<rfloor> / 1024)) w2)))
         else (Inr dl1, w1))"


text \<open>The loop runs the body on each chunk in turn; an exception ends it.\<close>

fun download_chunks ::
  "env \<Rightarrow> string \<Rightarrow> rat \<Rightarrow> pyval \<Rightarrow> nat \<Rightarrow> string list \<Rightarrow> world \<Rightarrow> (py_error + nat) \<times> world"
where
  "download_chunks e f start total_length dl [] w = (Inr dl, w)"
| "download_chunks e f start total_length dl (chunk # rest) w =
     (case chunk_body e f start total_length dl chunk w of
        (Inl err, w1) \<Rightarrow> (Inl err, w1)
      | (Inr dl1, w1) \<Rightarrow> download_chunks e f start total_length dl1 rest w1)"

text \<open>
  \<^verbatim>\<open>def downloadFile(url, headers, directory, file_name, total_length = 0):\<close>
  \<^verbatim>\<open>    r = requests.get(url, headers=headers, stream=True)\<close>
  \<^verbatim>\<open>    print('OK')\<close>
  \<^verbatim>\<open>    print('directory')\<close>
  \<^verbatim>\<open>    if r.status_code == 200:\<close>
  \<^verbatim>\<open>        filename = os.path.join(directory,  file_name)\<close>
  \<^verbatim>\<open>        print("Downloading " + filename)\<close>
  \<^verbatim>\<open>        with open(filename, 'wb') as f:\<close>
  \<^verbatim>\<open>            start = time.process_time()\<close>
  \<^verbatim>\<open>            print("File size is: %8.2f MB" % (total_length/(1024*1024)))\<close>
  \<^verbatim>\<open>            dl = 0\<close>
  \<^verbatim>\<open>            for chunk in r.iter_content(64738): ...\<close>
  \<^verbatim>\<open>            print("[%8.2f] MB downloaded, %8.2f kbps" % (dl / (1024 * 1024),\<close>
  \<^verbatim>\<open>                  (dl//(time.process_time() - start))/1024))\<close>
  \<^verbatim>\<open>            return (time.process_time() - start)\<close>
  The result is \<open>Some\<close> of the elapsed time, or \<open>None\<close> when the function falls off its
  end. \<open>open(filename, 'wb')\<close> raises OSError or creates the file empty. \<open>file_name\<close>
  and \<open>total_length\<close> are Python values, as \<open>download_data\<close> passes entries of the
  result listing: joining a path with anything but a \<open>str\<close> raises TypeError, and so
  does dividing anything but a number. The first step records the call and its arguments
  in \<open>calls\<close>; nothing in the function reads that record.
\<close>

text \<open>The default of the parameter \<open>total_length\<close>.\<close>

definition default_total_length :: pyval where
  "default_total_length = PInt 0"

definition downloadFile ::
  "env \<Rightarrow> string \<Rightarrow> headers \<Rightarrow> string \<Rightarrow> pyval \<Rightarrow> pyval \<Rightarrow> world
     \<Rightarrow> (py_error + rat option) \<times> world" where
  "downloadFile e url hs directory file_name total_length w =
     (case http e (Get url hs)
             (w\<lparr>calls := calls w @ [(url, hs, directory, file_name, total_length)]\<rparr>) of
        (r, w1) \<Rightarrow>
          (let w2 = emit (Print ''directory'') (emit (Print ''OK'') w1)
           in if status_code r = 200 then
                (case as_str file_name of
                   Inl err \<Rightarrow> (Inl err, w2)
                 | Inr name \<Rightarrow>
                    (let filename = path_join directory name;
                         w3 = emit (Print (''Downloading '' @ filename)) w2;
                         f = realpath e filename;
                         w4 = w3\<lparr>files := (files w3)(f \<mapsto> [])\<rparr>
                     in if \<not> can_open e filename then (Inl OSError, w3)
                        else
                          (case process_time e w4 of
                             (start, w5) \<Rightarrow>
                               (case as_number total_length of
                                  Inl err \<Rightarrow> (Inl err, w5)
                                | Inr n \<Rightarrow>
                                   if float_overflow (of_int n / (1024 * 1024))
                                   then (Inl OverflowError, w5)
                                   else
                                     (case download_chunks e f start total_length 0
                                             (iter_content r 64738)
                                             (emit (PrintFileSize (of_int n / (1024 * 1024)))
                                                w5) of
                                        (Inl err, w7) \<Rightarrow> (Inl err, w7)
                                      | (Inr dl, w7) \<Rightarrow>
                                         if float_overflow (of_nat dl / (1024 * 1024))
                                         then (Inl OverflowError, w7)
                                         else
                                           (case process_time e w7 of
                                              (t1, w8) \<Rightarrow>
                                                if float_overflow (of_nat dl)
                                                then (Inl OverflowError, w8)
                                                else if t1 - start = 0
                                                then (Inl ZeroDivisionError, w8)
                                                else
                                                  (case process_time e
                                                          (emit (PrintDownloaded
                                                                   (of_nat dl / (1024 * 1024))
                                                                   (of_int
                                                                      \<lfloor>of_nat dl / (t1 - start)\<rfloor>
                                                                      / 1024)) w8) of
                                                     (t2, w10) \<Rightarrow>
                                                       (Inr (Some (t2 - start)), w10))))))))
              else (Inr None, w2)))"

subsection \<open>get_filenames and download_data\<close>

text \<open>
  \<^verbatim>\<open>fileName = []\<close>
  \<^verbatim>\<open>for file in hda_dict['results']['content']:\<close>
  \<^verbatim>\<open>    fileName.append(file['filename'])\<close>
  \<^verbatim>\<open>return fileName\<close>
\<close>

fun filenames_loop :: "pyval list \<Rightarrow> pyval list \<Rightarrow> py_error + pyval list" where
  "filenames_loop fileName [] = Inr fileName"
| "filenames_loop fileName (file # rest) =
     (case getitem file ''filename'' of
        Inl err \<Rightarrow> Inl err
      | Inr name \<Rightarrow> filenames_loop (fileName @ [name]) rest)"

definition get_filenames :: "hda \<Rightarrow> py_error + pyval list" where
  "get_filenames h =
     (case results h of
        None \<Rightarrow> Inl KeyError
      | Some res \<Rightarrow>
         (case getitem res ''content'' of
            Inl err \<Rightarrow> Inl err
          | Inr content \<Rightarrow>
             (case py_iter content of
                Inl err \<Rightarrow> Inl err
              | Inr fs \<Rightarrow> filenames_loop [] fs)))"

definition isfile :: "env \<Rightarrow> world \<Rightarrow> string \<Rightarrow> bool" where
  "isfile e w p = (files w (realpath e p) \<noteq> None)"

text \<open>
  \<^verbatim>\<open>i=0\<close>
  \<^verbatim>\<open>for order_id in hda_dict['order_ids']:\<close>
  \<^verbatim>\<open>    print (order_id)\<close>
  \<^verbatim>\<open>    file_name=fileName[i]\<close>
  \<^verbatim>\<open>    download_url = hda_dict['broker_endpoint'] + '/dataorder/download/' + order_id\<close>
  \<^verbatim>\<open>    product_size = hda_dict['order_sizes'][i]\<close>
  \<^verbatim>\<open>    print (download_url); print (hda_dict['headers'])\<close>
  \<^verbatim>\<open>    print (type(hda_dict['download_dir_path'])); print (product_size)\<close>
  \<^verbatim>\<open>    time_elapsed = downloadFile(download_url, hda_dict['headers'],\<close>
  \<^verbatim>\<open>                                hda_dict['download_dir_path'], file_name, product_size)\<close>
  \<^verbatim>\<open>    print( "Download complete...")\<close>
  \<^verbatim>\<open>    print ("Time Elapsed: " + str(time_elapsed) + " seconds")\<close>
  \<^verbatim>\<open>    response=hda_dict['order_status_response']\<close>
  \<^verbatim>\<open>    if (response.status_code == hda_dict['CONST_HTTP_SUCCESS_CODE']):\<close>
  \<^verbatim>\<open>        order_file = "./" + file_name\<close>
  \<^verbatim>\<open>        if os.path.isfile(order_file):\<close>
  \<^verbatim>\<open>            print ("Query successfully submitted. Response is " + response)\<close>
  \<^verbatim>\<open>    else:\<close>
  \<^verbatim>\<open>        print("Error: Unexpected response {}".format(response))\<close>
  \<^verbatim>\<open>    i += 1\<close>
  The last \<open>print\<close> adds a string and a response object, which raises TypeError.
  This is the body of the loop, for the order id at index \<open>i\<close>.
\<close>

definition download_body ::
  "env \<Rightarrow> hda \<Rightarrow> pyval list \<Rightarrow> nat \<Rightarrow> pyval \<Rightarrow> world \<Rightarrow> (py_error + unit) \<times> world"
where
  "download_body e h fileName i order_id w =
     (let w1 = emit (PrintVal order_id) w
      in if length fileName \<le> i then (Inl IndexError, w1)
         else
           (case as_str order_id of
              Inl err \<Rightarrow> (Inl err, w1)
            | Inr oid \<Rightarrow>
               (case order_sizes h of
                  None \<Rightarrow> (Inl KeyError, w1)
                | Some sizes \<Rightarrow>
                   if length sizes \<le> i then (Inl IndexError, w1)
                   else
                     (case headers h of
                        None \<Rightarrow>
                          (Inl KeyError,
                           emit (Print (broker_endpoint h @ ''/dataorder/download/'' @ oid)) w1)
                      | Some hs \<Rightarrow>
                         (case downloadFile e
                                 (broker_endpoint h @ ''/dataorder/download/'' @ oid) hs
                                 (download_dir_path h) (fileName ! i) (sizes ! i)
                                 (emit (PrintVal (sizes ! i))
                                    (emit PrintType
                                       (emit (PrintHeaders hs)
                                          (emit (Print (broker_endpoint h
                                                          @ ''/dataorder/download/'' @ oid))
                                             w1)))) of
                            (Inl err, w4) \<Rightarrow> (Inl err, w4)
                          | (Inr time_elapsed, w4) \<Rightarrow>
                             (let w5 = emit (PrintElapsed time_elapsed)
                                         (emit (Print ''Download complete...'') w4)
                              in case order_status_response h of
                                   None \<Rightarrow> (Inl KeyError, w5)
                                 | Some response \<Rightarrow>
                                    if status_code response = CONST_HTTP_SUCCESS_CODE h then
                                      (case as_str (fileName ! i) of
                                         Inl err \<Rightarrow> (Inl err, w5)
                                       | Inr name \<Rightarrow>
                                          if isfile e w5 (''./'' @ name) then (Inl TypeError, w5)
                                          else (Inr (), w5))
                                    else (Inr (),
                                          emit (PrintUnexpected (status_code response))
                                            w5)))))))"

text \<open>The loop runs the body on each order id in turn and counts \<open>i\<close> up.\<close>

fun download_loop ::
  "env \<Rightarrow> hda \<Rightarrow> pyval list \<Rightarrow> nat \<Rightarrow> pyval list \<Rightarrow> world \<Rightarrow> (py_error + unit) \<times> world"
where
  "download_loop e h fileName i [] w = (Inr (), w)"
| "download_loop e h fileName i (order_id # rest) w =
     (case download_body e h fileName i order_id w of
        (Inl err, w1) \<Rightarrow> (Inl err, w1)
      | (Inr u, w1) \<Rightarrow> download_loop e h fileName (i + 1) rest w1)"

text \<open>
  \<^verbatim>\<open>fileName = get_filenames(hda_dict)\<close>
  \<^verbatim>\<open>print(fileName)\<close>
  and the loop above.
\<close>

definition download_data :: "env \<Rightarrow> hda \<Rightarrow> world \<Rightarrow> (py_error + unit) \<times> world" where
  "download_data e h w =
     (case get_filenames h of
        Inl err \<Rightarrow> (Inl err, w)
      | Inr fileName \<Rightarrow>
         (case order_ids h of
            None \<Rightarrow> (Inl KeyError, emit (PrintVal (PList fileName)) w)
          | Some ids \<Rightarrow> download_loop e h fileName 0 ids (emit (PrintVal (PList fileName)) w)))"

subsection \<open>Observing the orders and the downloads\<close>

text \<open>
  What the properties below look at. \<open>order_request h d\<close> is the request the body of
  \<open>get_order_ids\<close> posts for the result descriptor \<open>d\<close> (its \<open>data\<close> dictionary, sent
  to \<open>/dataorder\<close>); the order POSTs are the requests between two worlds that are not
  GETs, each with its response. \<open>download_call_of\<close> is the call of \<open>downloadFile\<close> that
  the body of \<open>download_data\<close> makes for the order id at index \<open>k\<close>.
\<close>

definition is_get :: "request \<Rightarrow> bool" where
  "is_get rq = (case rq of Get u hs \<Rightarrow> True | Post u hs b \<Rightarrow> False)"

definition order_request :: "hda \<Rightarrow> pyval \<Rightarrow> request option" where
  "order_request h d =
     (case job_id h of
        None \<Rightarrow> None
      | Some jid \<Rightarrow>
         (case getitem d ''url'' of
            Inl err \<Rightarrow> None
          | Inr uri \<Rightarrow>
             (case headers h of
                None \<Rightarrow> None
              | Some hs \<Rightarrow>
                  Some (Post (broker_endpoint h @ ''/dataorder'') hs
                          (PDict [(''jobId'', PStr jid), (''uri'', uri)])))))"

definition posts_between :: "world \<Rightarrow> world \<Rightarrow> (request \<times> response) list" where
  "posts_between w w' =
     filter (\<lambda>x. \<not> is_get (fst x)) (drop (length (exchanges w)) (exchanges w'))"

definition str_of :: "pyval \<Rightarrow> string" where
  "str_of v = (case v of PStr s \<Rightarrow> s | _ \<Rightarrow> [])"

definition download_call_of ::
  "hda \<Rightarrow> headers \<Rightarrow> pyval list \<Rightarrow> pyval list \<Rightarrow> nat \<Rightarrow> pyval \<Rightarrow> download_call" where
  "download_call_of h hs fileName sizes k order_id =
     (broker_endpoint h @ ''/dataorder/download/'' @ str_of order_id, hs,
      download_dir_path h, fileName ! k, sizes ! k)"







subsection \<open>Example inputs\<close>

text \<open>
  A service that gives the same answer to every request, a clock that advances by one at
  every reading (or, in \<open>stuck_env\<close>, does not advance), a file system where every
  file can be opened, an empty world, and a session as it is after \<open>get_job_id\<close>.
\<close>

definition status_response :: "string \<Rightarrow> response" where
  "status_response s =
     \<lparr>status_code = 200, json_body = Some (PDict [(''status'', PStr s)]),
      iter_content = (\<lambda>n. [])\<rparr>"

definition stream_response :: "int \<Rightarrow> string list \<Rightarrow> response" where
  "stream_response code chunks =
     \<lparr>status_code = code, json_body = None, iter_content = (\<lambda>n. chunks)\<rparr>"

definition constant_env :: "response \<Rightarrow> env" where
  "constant_env r =
     \<lparr>transport = (\<lambda>past rq. r), clock = (\<lambda>k. of_nat k), realpath = (\<lambda>p. p),
      can_open = (\<lambda>p. True)\<rparr>"

definition world0 :: world where
  "world0 = \<lparr>exchanges = [], out = [], files = Map.empty, ticks = 0, calls = []\<rparr>"

definition session0 :: hda where
  "session0 = (init ''EO:ECMWF:DAT:CAMS'' ''dXNlcjpwYXNz'' ''./data/'')
     \<lparr>headers := Some [(''Authorization'', ''Bearer t''), (''Accept'', ''application/json'')],
      job_id := Some ''job1''\<rparr>"

definition stuck_env :: "response \<Rightarrow> env" where
  "stuck_env r =
     \<lparr>transport = (\<lambda>past rq. r), clock = (\<lambda>k. 0), realpath = (\<lambda>p. p),
      can_open = (\<lambda>p. True)\<rparr>"

text \<open>
  A service for whole runs: it answers an order POST with an order id equal to the posted
  \<open>uri\<close>, unless the \<open>uri\<close> is in the list \<open>refused\<close> (then status 500); it answers
  every GET with status \<open>completed\<close> and a body streamed as \<open>ab\<close>, \<open>cd\<close>. And a
  session whose result listing holds the given descriptors.
\<close>

definition echo_transport :: "pyval list \<Rightarrow> request list \<Rightarrow> request \<Rightarrow> response" where
  "echo_transport refused past rq =
     (case rq of
        Get u hs \<Rightarrow>
          \<lparr>status_code = 200, json_body = Some (PDict [(''status'', PStr ''completed'')]),
           iter_content = (\<lambda>n. [''ab'', ''cd''])\<rparr>
      | Post u hs body \<Rightarrow>
          (case getitem body ''uri'' of
             Inl err \<Rightarrow> \<lparr>status_code = 400, json_body = None, iter_content = (\<lambda>n. [])\<rparr>
           | Inr uri \<Rightarrow>
               if uri \<in> set refused
               then \<lparr>status_code = 500, json_body = None, iter_content = (\<lambda>n. [])\<rparr>
               else \<lparr>status_code = 200, json_body = Some (PDict [(''orderId'', uri)]),
                     iter_content = (\<lambda>n. [])\<rparr>))"

definition echo_env :: "pyval list \<Rightarrow> env" where
  "echo_env refused =
     \<lparr>transport = echo_transport refused, clock = (\<lambda>k. of_nat k), realpath = (\<lambda>p. p),
      can_open = (\<lambda>p. True)\<rparr>"

definition file_desc :: "string \<Rightarrow> int \<Rightarrow> string \<Rightarrow> pyval" where
  "file_desc name n u = PDict [(''filename'', PStr name), (''size'', PInt n), (''url'', PStr u)]"

definition session_with :: "pyval list \<Rightarrow> hda" where
  "session_with descs = session0\<lparr>results := Some (PDict [(''content'', PList descs)])\<rparr>"

section \<open>Properties\<close>

subsection \<open>Base64 encoding of the credentials\<close>

lemma index_of_nth: "distinct xs \<Longrightarrow> i < length xs \<Longrightarrow> index_of (xs ! i) xs = Some i"
proof (induction xs arbitrary: i)
  case Nil
  then show ?case by simp
next
  case (Cons y ys)
  show ?case
  proof (cases i)
    case 0
    then show ?thesis by simp
  next
    case (Suc j)
    with Cons.prems have "j < length ys" "distinct ys" "ys ! j \<noteq> y"
      by auto
    with Cons.IH [of j] Suc show ?thesis by simp
  qed
qed

lemma length_b64_alphabet: "length b64_alphabet = 64"
  by (simp add: b64_alphabet_def)

lemma distinct_b64_alphabet: "distinct b64_alphabet"
  by (simp add: b64_alphabet_def)

lemma b64_index_char: "i < 64 \<Longrightarrow> b64_index (b64_char i) = Some i"
  unfolding b64_index_def b64_char_def
  by (rule index_of_nth) (simp_all add: distinct_b64_alphabet length_b64_alphabet)

lemma b64_char_not_pad: "i < 64 \<Longrightarrow> b64_char i \<noteq> CHR ''=''"
proof -
  assume "i < 64"
  then have "b64_char i \<in> set b64_alphabet"
    unfolding b64_char_def by (simp add: length_b64_alphabet)
  moreover have "CHR ''='' \<notin> set b64_alphabet"
    by (simp add: b64_alphabet_def)
  ultimately show ?thesis by auto
qed

lemma of_char_lt: "(of_char c :: nat) < 256"
  by (cases c) simp

text \<open>The four sextets of three bytes are below 64, and the octets built from them are
  the three bytes again; a short last group needs only its leading sextets.\<close>

lemma sextets_octets:
  assumes "x < 256" "y < 256" "z < 256"
  obtains i0 i1 i2 i3 where "sextets x y z = [i0, i1, i2, i3]"
    "i0 < 64" "i1 < 64" "i2 < 64" "i3 < 64"
    "octets i0 i1 i2 i3 = [x, y, z]"
    "\<And>j. take 2 (octets i0 i1 i2 j) = [x, y]"
    "\<And>j k. take (Suc 0) (octets i0 i1 j k) = [x]"
proof
  show "sextets x y z = [x div 4, (x mod 4) * 16 + y div 16, (y mod 16) * 4 + z div 64, z mod 64]"
    by (simp add: sextets_def)
  show "x div 4 < 64" "(x mod 4) * 16 + y div 16 < 64" "(y mod 16) * 4 + z div 64 < 64"
    "z mod 64 < 64"
    using assms by auto
  show "octets (x div 4) ((x mod 4) * 16 + y div 16) ((y mod 16) * 4 + z div 64) (z mod 64)
      = [x, y, z]"
    using assms by (auto simp: octets_def div_mult_mod_eq)
  show "take 2 (octets (x div 4) ((x mod 4) * 16 + y div 16) ((y mod 16) * 4 + z div 64) j)
      = [x, y]" for j
    using assms by (auto simp: octets_def div_mult_mod_eq)
  show "take (Suc 0) (octets (x div 4) ((x mod 4) * 16 + y div 16) j k) = [x]" for j k
    using assms by (auto simp: octets_def div_mult_mod_eq)
qed

lemma b64decode_b64encode: "b64decode (b64encode bs) = Some bs"
proof (induction bs rule: b64encode.induct)
  case 1
  show ?case by simp
next
  case (2 a)
  obtain i0 i1 i2 i3 where s: "sextets (of_char a) 0 0 = [i0, i1, i2, i3]"
    and lt: "i0 < 64" "i1 < 64"
    and oc: "\<And>j k. take (Suc 0) (octets i0 i1 j k) = [of_char a]"
    by (rule sextets_octets [of "of_char a" 0 0]) (simp_all add: of_char_lt)
  show ?case
    by (simp add: s lt oc b64_index_char)
next
  case (3 a b)
  obtain i0 i1 i2 i3 where s: "sextets (of_char a) (of_char b) 0 = [i0, i1, i2, i3]"
    and lt: "i0 < 64" "i1 < 64" "i2 < 64"
    and oc: "\<And>j. take 2 (octets i0 i1 i2 j) = [of_char a, of_char b]"
    by (rule sextets_octets [of "of_char a" "of_char b" 0]) (simp_all add: of_char_lt)
  show ?case
    by (simp add: s lt oc b64_index_char b64_char_not_pad)
next
  case (4 a b c rest)
  obtain i0 i1 i2 i3 where s: "sextets (of_char a) (of_char b) (of_char c) = [i0, i1, i2, i3]"
    and lt: "i0 < 64" "i1 < 64" "i2 < 64" "i3 < 64"
    and oc: "octets i0 i1 i2 i3 = [of_char a, of_char b, of_char c]"
    by (rule sextets_octets [of "of_char a" "of_char b" "of_char c"]) (simp_all add: of_char_lt)
  show ?case
    by (simp add: s lt oc b64_index_char b64_char_not_pad "4.IH")
qed

text \<open>
  UTF-8: the bytes of a code point other than a surrogate decode to that code point.
\<close>

lemma utf8_char_bytes: "c < 0x110000 \<Longrightarrow> \<forall>b\<in>set (utf8_char c). b < 256"
  by (auto simp: utf8_char_def)

lemma decoded_Inr [simp]: "decoded c (Inr cs) = Inr (c # cs)"
  by (simp add: decoded_def)

lemma digits3: "(c div 4096 * 64 + c div 64 mod 64) * 64 + c mod 64 = (c::nat)"
proof -
  define a x y m where "a = c div 4096" and "x = c div 64 mod 64" and "y = c mod 64"
    and "m = c mod 4096"
  have "m = 64 * x + y"
    using mod_mult2_eq [of c 64 64] by (simp add: x_def y_def m_def)
  moreover have "c = a * 4096 + m"
    by (simp add: a_def m_def)
  ultimately have "(a * 64 + x) * 64 + y = c" by simp
  then show ?thesis by (simp only: a_def x_def y_def)
qed

lemma digits4:
  "((c div 262144 * 64 + c div 4096 mod 64) * 64 + c div 64 mod 64) * 64 + c mod 64 = (c::nat)"
proof -
  define a x y z m n where "a = c div 262144" and "x = c div 4096 mod 64"
    and "y = c div 64 mod 64" and "z = c mod 64" and "m = c div 64 mod 4096"
    and "n = c mod 262144"
  have "c div 4096 = c div 64 div 64"
    by (simp add: div_mult2_eq [symmetric])
  then have "m = 64 * x + y"
    using mod_mult2_eq [of "c div 64" 64 64] by (simp add: x_def y_def m_def)
  moreover have "n = 64 * m + z"
    using mod_mult2_eq [of c 64 4096] by (simp add: z_def m_def n_def)
  moreover have "c = a * 262144 + n"
    by (simp add: a_def n_def)
  ultimately have "((a * 64 + x) * 64 + y) * 64 + z = c" by simp
  then show ?thesis by (simp only: a_def x_def y_def z_def)
qed

lemma utf8_decode_char:
  assumes "c < 0x110000" "\<not> surrogate c"
  shows "utf8_decode (utf8_char c @ bs) = decoded c (utf8_decode bs)"
proof -
  consider "c < 0x80" | "0x80 \<le> c" "c < 0x800" | "0x800 \<le> c" "c < 0x10000"
    | "0x10000 \<le> c" "c < 0x110000"
    using assms(1) by linarith
  then show ?thesis
  proof cases
    case 1
    then show ?thesis by (simp add: utf8_char_def)
  next
    case 2
    define b0 b1 where "b0 = 0xC0 + c div 64" and "b1 = 0x80 + c mod 64"
    from 2 have u: "utf8_char c = [b0, b1]"
      by (simp add: utf8_char_def b0_def b1_def)
    from 2 have "c div 64 < 32" "2 \<le> c div 64" by auto
    then have l: "\<not> b0 < 0x80" "0xC2 \<le> b0" "b0 < 0xE0" "continuation b1"
      by (simp_all add: b0_def b1_def continuation_def)
    have v: "(b0 - 0xC0) * 64 + (b1 - 0x80) = c"
      by (simp add: b0_def b1_def)
    show ?thesis
      unfolding u using l v by simp
  next
    case 3
    define b0 b1 b2 where "b0 = 0xE0 + c div 4096" and "b1 = 0x80 + c div 64 mod 64"
      and "b2 = 0x80 + c mod 64"
    from 3 have u: "utf8_char c = [b0, b1, b2]"
      by (simp add: utf8_char_def b0_def b1_def b2_def)
    from 3 have "c div 4096 < 16" by auto
    then have l: "\<not> b0 < 0x80" "\<not> (0xC2 \<le> b0 \<and> b0 < 0xE0)" "0xE0 \<le> b0" "b0 < 0xF0"
      "continuation b1" "continuation b2"
      by (simp_all add: b0_def b1_def b2_def continuation_def)
    have "b0 - 0xE0 = c div 4096" "b1 - 0x80 = c div 64 mod 64" "b2 - 0x80 = c mod 64"
      by (simp_all add: b0_def b1_def b2_def)
    then have v: "((b0 - 0xE0) * 64 + (b1 - 0x80)) * 64 + (b2 - 0x80) = c"
      by (simp only: digits3)
    show ?thesis
      unfolding u using l 3 assms(2) v by (simp add: Let_def)
  next
    case 4
    define b0 b1 b2 b3 where "b0 = 0xF0 + c div 262144" and "b1 = 0x80 + c div 4096 mod 64"
      and "b2 = 0x80 + c div 64 mod 64" and "b3 = 0x80 + c mod 64"
    from 4 have u: "utf8_char c = [b0, b1, b2, b3]"
      by (simp add: utf8_char_def b0_def b1_def b2_def b3_def)
    from 4 have "c div 262144 < 5" by auto
    then have l: "\<not> b0 < 0x80" "\<not> (0xC2 \<le> b0 \<and> b0 < 0xE0)" "\<not> (0xE0 \<le> b0 \<and> b0 < 0xF0)"
      "0xF0 \<le> b0" "b0 < 0xF5" "continuation b1" "continuation b2" "continuation b3"
      by (simp_all add: b0_def b1_def b2_def b3_def continuation_def)
    have "b0 - 0xF0 = c div 262144" "b1 - 0x80 = c div 4096 mod 64"
      "b2 - 0x80 = c div 64 mod 64" "b3 - 0x80 = c mod 64"
      by (simp_all add: b0_def b1_def b2_def b3_def)
    then have v: "(((b0 - 0xF0) * 64 + (b1 - 0x80)) * 64 + (b2 - 0x80)) * 64 + (b3 - 0x80) = c"
      by (simp only: digits4)
    show ?thesis
      unfolding u using l 4 v by (simp add: Let_def)
  qed
qed

lemma utf8_decode_encode:
  "is_str s \<Longrightarrow> utf8_encode s = Inr bs \<Longrightarrow> utf8_decode bs = Inr s \<and> (\<forall>b\<in>set bs. b < 256)"
proof (induction s arbitrary: bs)
  case Nil
  then show ?case by simp
next
  case (Cons c cs)
  from Cons.prems(1) have c: "c < 0x110000" and cs: "is_str cs"
    by (simp_all add: is_str_def)
  from Cons.prems(2) obtain bs' where ns: "\<not> surrogate c" and e: "utf8_encode cs = Inr bs'"
    and bs: "bs = utf8_char c @ bs'"
    by (auto split: if_splits sum.splits)
  from Cons.IH [OF cs e] utf8_char_bytes [OF c] show ?case
    by (auto simp: bs utf8_decode_char [OF c ns])
qed

lemma utf8_encode_total:
  "utf8_encode s = (if \<exists>c\<in>set s. surrogate c then Inl UnicodeEncodeError
                    else Inr (concat (map utf8_char s)))"
  by (induction s) auto

lemma utf8_decode_ascii: "\<forall>b\<in>set bs. b < 0x80 \<Longrightarrow> utf8_decode bs = Inr bs"
  by (induction bs) auto

lemma b64_char_ascii: "i < 64 \<Longrightarrow> (of_char (b64_char i) :: nat) < 0x80"
proof -
  assume "i < 64"
  then have "b64_char i \<in> set b64_alphabet"
    unfolding b64_char_def by (simp add: length_b64_alphabet)
  moreover have "\<forall>c\<in>set b64_alphabet. (of_char c :: nat) < 0x80"
    by (simp add: b64_alphabet_def)
  ultimately show ?thesis by blast
qed

lemma b64encode_ascii: "\<forall>c\<in>set (b64encode bs). (of_char c :: nat) < 0x80"
proof (induction bs rule: b64encode.induct)
  case 1
  show ?case by simp
next
  case (2 a)
  obtain i0 i1 i2 i3 where s: "sextets (of_char a) 0 0 = [i0, i1, i2, i3]"
    and lt: "i0 < 64" "i1 < 64"
    by (rule sextets_octets [of "of_char a" 0 0]) (simp_all add: of_char_lt)
  show ?case
    by (simp add: s lt b64_char_ascii)
next
  case (3 a b)
  obtain i0 i1 i2 i3 where s: "sextets (of_char a) (of_char b) 0 = [i0, i1, i2, i3]"
    and lt: "i0 < 64" "i1 < 64" "i2 < 64"
    by (rule sextets_octets [of "of_char a" "of_char b" 0]) (simp_all add: of_char_lt)
  show ?case
    by (simp add: s lt b64_char_ascii)
next
  case (4 a b c rest)
  obtain i0 i1 i2 i3 where s: "sextets (of_char a) (of_char b) (of_char c) = [i0, i1, i2, i3]"
    and lt: "i0 < 64" "i1 < 64" "i2 < 64" "i3 < 64"
    by (rule sextets_octets [of "of_char a" "of_char b" "of_char c"]) (simp_all add: of_char_lt)
  show ?case
    using "4.IH" by (simp add: s lt b64_char_ascii)
qed

lemma map_of_char_char_of:
  "\<forall>b\<in>set bs. b < 256 \<Longrightarrow> map (of_char \<circ> (char_of :: nat \<Rightarrow> char)) bs = (bs :: nat list)"
  by (induction bs) auto

lemma generate_api_key_eq:
  assumes "utf8_encode (username @ [0x3A] @ password) = Inr bs"
  shows "generate_api_key username password = Inr (map of_char (b64encode (map char_of bs)))"
  using assms b64encode_ascii [of "map char_of bs"]
  by (simp add: generate_api_key_def str_encode_def bytes_decode_def utf8_decode_ascii)

lemma key_decode_key:
  assumes "is_str s" "utf8_encode s = Inr bs"
  shows "key_decode (map of_char (b64encode (map char_of bs))) = Inr s"
proof -
  from utf8_decode_encode [OF assms] have d: "utf8_decode bs = Inr s" and lt: "\<forall>b\<in>set bs. b < 256"
    by simp_all
  have "\<not> (\<exists>c\<in>set (map of_char (b64encode (map char_of bs))). (0x80::nat) \<le> c)"
    using b64encode_ascii [of "map char_of bs"] by (auto simp: not_le)
  moreover have "map char_of (map of_char (b64encode (map char_of bs)) :: nat list)
      = b64encode (map char_of bs)"
    by (simp add: comp_def)
  ultimately show ?thesis
    unfolding key_decode_def
    by (simp add: b64decode_b64encode bytes_decode_def map_of_char_char_of [OF lt] d
        del: set_map)
qed

text \<open>
  Claim C8, as amended. \<open>generate_api_key\<close> is a function of its two arguments. For
  every username and password (any two \<open>str\<close> values): when neither holds a surrogate
  code point, the call returns a key, and Base64-decoding the key (and reading the bytes
  as UTF-8, as the key was made) gives back the string \<open>username:password\<close>; when one
  of them holds a surrogate code point, the call raises UnicodeEncodeError and there is
  no key to decode.
\<close>

theorem generate_api_key_reversible:
  assumes "is_str username" and "is_str password"
  shows "if \<exists>c\<in>set (username @ password). surrogate c
         then generate_api_key username password = Inl UnicodeEncodeError
         else \<exists>key. generate_api_key username password = Inr key \<and>
                key_decode key = Inr (username @ [0x3A] @ password)"
proof -
  let ?s = "username @ [0x3A] @ password"
  have c: "\<not> surrogate 0x3A" by (simp add: surrogate_def)
  have s: "is_str ?s" using assms by (auto simp: is_str_def)
  show ?thesis
  proof (cases "\<exists>c\<in>set (username @ password). surrogate c")
    case True
    with c have "utf8_encode ?s = Inl UnicodeEncodeError"
      by (auto simp: utf8_encode_total)
    with True show ?thesis
      by (simp add: generate_api_key_def str_encode_def)
  next
    case False
    with c have e: "utf8_encode ?s = Inr (concat (map utf8_char ?s))"
      unfolding utf8_encode_total by auto
    from generate_api_key_eq [OF e] key_decode_key [OF s e] False show ?thesis
      by simp
  qed
qed

text \<open>
  The user \<open>user\<close> with a password of one, two, three and four byte characters, and a
  user name holding the lone surrogate \<open>U+DC80\<close>.
\<close>

theorem generate_api_key_reversible_witness:
  "generate_api_key [0x75, 0x73, 0x65, 0x72] [0x70, 0xE9, 0x20AC, 0x1F600]
     = Inr (map of_char ''dXNlcjpww6nigqzwn5iA'') \<and>
   key_decode (map of_char ''dXNlcjpww6nigqzwn5iA'')
     = Inr [0x75, 0x73, 0x65, 0x72, 0x3A, 0x70, 0xE9, 0x20AC, 0x1F600] \<and>
   generate_api_key [0x75, 0xDC80] [0x70] = Inl UnicodeEncodeError"
  using generate_api_key_reversible [of "[0x75, 0x73, 0x65, 0x72]" "[0x70, 0xE9, 0x20AC, 0x1F600]"]
    generate_api_key_reversible [of "[0x75, 0xDC80]" "[0x70]"]
  by (simp add: is_str_def surrogate_def generate_api_key_def str_encode_def bytes_decode_def
      utf8_char_def b64_char_def b64_alphabet_def sextets_def continuation_def)

text \<open>
  The user name made of the lone surrogate \<open>U+DC80\<close> (what \<open>os.fsdecode\<close> gives for
  the byte \<open>0x80\<close>) is a \<open>str\<close>, and \<open>generate_api_key\<close> raises on it.
\<close>

theorem generate_api_key_surrogate_counterexample:
  "is_str [0xDC80] \<and> is_str [] \<and> generate_api_key [0xDC80] [] = Inl UnicodeEncodeError"
  by (simp add: is_str_def surrogate_def generate_api_key_def str_encode_def)

subsection \<open>The file name of a Content-Disposition header\<close>

lemma findall_filename_Nil: "findall_filename [] = []"
  by (subst findall_filename.simps) simp

lemma findall_filename_Cons:
  "findall_filename (c # cs) =
     (case match_here (c # cs) of
        Some g \<Rightarrow> g # findall_filename (drop (9 + length g) (c # cs))
      | None \<Rightarrow> findall_filename cs)"
  by (subst findall_filename.simps) (simp split: option.split)

lemma findall_first_match:
  "(case findall_filename s of [] \<Rightarrow> first_match s = None | g # _ \<Rightarrow> first_match s = Some g)"
  by (induction s)
    (simp_all add: findall_filename_Nil findall_filename_Cons split: option.splits list.splits)

lemma dot_run_append:
  "CHR 0x0A \<notin> set g \<Longrightarrow> rest = [] \<or> hd rest = CHR 0x0A \<Longrightarrow> dot_run (g @ rest) = g"
proof -
  assume g: "CHR 0x0A \<notin> set g" and r: "rest = [] \<or> hd rest = CHR 0x0A"
  from r have "takeWhile (\<lambda>c. c \<noteq> CHR 0x0A) rest = []"
    by (cases rest) auto
  with g show ?thesis
    unfolding dot_run_def by (induction g) auto
qed

lemma match_here_SomeD:
  assumes "match_here s = Some g"
  shows "\<exists>rest. s = ''filename='' @ g @ rest \<and> g \<noteq> [] \<and> CHR 0x0A \<notin> set g \<and>
           (rest = [] \<or> hd rest = CHR 0x0A)"
proof -
  let ?P = "\<lambda>c. c \<noteq> CHR 0x0A"
  from assms have t: "take 9 s = ''filename=''" and g: "g = takeWhile ?P (drop 9 s)"
    and ne: "g \<noteq> []"
    by (auto simp: match_here_def dot_run_def split: if_splits)
  have "s = take 9 s @ drop 9 s" by simp
  also have "drop 9 s = g @ dropWhile ?P (drop 9 s)"
    unfolding g by simp
  finally have "s = ''filename='' @ g @ dropWhile ?P (drop 9 s)"
    using t by simp
  moreover have "CHR 0x0A \<notin> set g"
    unfolding g by (auto dest: set_takeWhileD)
  moreover have "dropWhile ?P (drop 9 s) = [] \<or> hd (dropWhile ?P (drop 9 s)) = CHR 0x0A"
    using hd_dropWhile [of ?P "drop 9 s"] by auto
  ultimately show ?thesis using ne by blast
qed

lemma match_here_None_iff:
  "match_here s = None \<longleftrightarrow> \<not> (\<exists>c rest. s = ''filename='' @ c # rest \<and> c \<noteq> CHR 0x0A)"
proof
  assume n: "match_here s = None"
  show "\<not> (\<exists>c rest. s = ''filename='' @ c # rest \<and> c \<noteq> CHR 0x0A)"
  proof
    assume "\<exists>c rest. s = ''filename='' @ c # rest \<and> c \<noteq> CHR 0x0A"
    then obtain c rest where "s = ''filename='' @ c # rest" "c \<noteq> CHR 0x0A" by blast
    then have "match_here s \<noteq> None"
      by (simp add: match_here_def dot_run_def)
    with n show False by simp
  qed
next
  assume a: "\<not> (\<exists>c rest. s = ''filename='' @ c # rest \<and> c \<noteq> CHR 0x0A)"
  show "match_here s = None"
  proof (cases "match_here s")
    case None
    then show ?thesis .
  next
    case (Some g)
    from match_here_SomeD [OF Some] obtain rest where
      "s = ''filename='' @ g @ rest" "g \<noteq> []" "CHR 0x0A \<notin> set g" by blast
    then have "s = ''filename='' @ hd g # (tl g @ rest) \<and> hd g \<noteq> CHR 0x0A"
      by (cases g) auto
    with a show ?thesis by blast
  qed
qed

lemma match_here_NoneD:
  "match_here s = None \<Longrightarrow> s = ''filename='' @ c # rest \<Longrightarrow> c \<noteq> CHR 0x0A \<Longrightarrow> False"
  using match_here_None_iff [of s] by blast

lemma has_filename_match_Nil: "\<not> has_filename_match []"
  by (simp add: has_filename_match_def)

lemma has_filename_match_Cons:
  "has_filename_match (c # cs) \<longleftrightarrow> match_here (c # cs) \<noteq> None \<or> has_filename_match cs"
proof
  assume "has_filename_match (c # cs)"
  then obtain pre x rest where s: "c # cs = pre @ ''filename='' @ x # rest" and x: "x \<noteq> CHR 0x0A"
    unfolding has_filename_match_def by blast
  show "match_here (c # cs) \<noteq> None \<or> has_filename_match cs"
  proof (cases pre)
    case Nil
    with s x have "\<exists>x rest. c # cs = ''filename='' @ x # rest \<and> x \<noteq> CHR 0x0A" by auto
    then show ?thesis using match_here_None_iff [of "c # cs"] by blast
  next
    case (Cons p ps)
    with s have "cs = ps @ ''filename='' @ x # rest" by simp
    with x show ?thesis unfolding has_filename_match_def by blast
  qed
next
  assume "match_here (c # cs) \<noteq> None \<or> has_filename_match cs"
  then show "has_filename_match (c # cs)"
  proof
    assume "match_here (c # cs) \<noteq> None"
    then have "\<exists>x rest. c # cs = ''filename='' @ x # rest \<and> x \<noteq> CHR 0x0A"
      using match_here_None_iff [of "c # cs"] by simp
    then obtain x rest where "c # cs = ''filename='' @ x # rest" "x \<noteq> CHR 0x0A"
      by blast
    then have "c # cs = [] @ ''filename='' @ x # rest \<and> x \<noteq> CHR 0x0A" by simp
    then show ?thesis unfolding has_filename_match_def by blast
  next
    assume "has_filename_match cs"
    then obtain pre x rest where "cs = pre @ ''filename='' @ x # rest" "x \<noteq> CHR 0x0A"
      unfolding has_filename_match_def by blast
    then have "c # cs = (c # pre) @ ''filename='' @ x # rest \<and> x \<noteq> CHR 0x0A" by simp
    then show ?thesis unfolding has_filename_match_def by blast
  qed
qed

lemma first_match_None_iff: "first_match s = None \<longleftrightarrow> \<not> has_filename_match s"
  by (induction s) (auto simp: has_filename_match_Nil has_filename_match_Cons split: option.splits)

text \<open>The group of the leftmost match is determined by the text.\<close>

lemma first_group_unique:
  assumes "first_group s g" "first_group s g'"
  shows "g = g'"
proof -
  from assms(1) obtain pre rest where 1: "s = pre @ ''filename='' @ g @ rest" "g \<noteq> []"
    "CHR 0x0A \<notin> set g" "rest = [] \<or> hd rest = CHR 0x0A"
    and m1: "\<And>pre' c rest'. s = pre' @ ''filename='' @ c # rest' \<Longrightarrow> c \<noteq> CHR 0x0A
        \<Longrightarrow> length pre \<le> length pre'"
    unfolding first_group_def by blast
  from assms(2) obtain pre2 rest2 where 2: "s = pre2 @ ''filename='' @ g' @ rest2" "g' \<noteq> []"
    "CHR 0x0A \<notin> set g'" "rest2 = [] \<or> hd rest2 = CHR 0x0A"
    and m2: "\<And>pre' c rest'. s = pre' @ ''filename='' @ c # rest' \<Longrightarrow> c \<noteq> CHR 0x0A
        \<Longrightarrow> length pre2 \<le> length pre'"
    unfolding first_group_def by blast
  from 1 have a: "s = pre @ ''filename='' @ hd g # (tl g @ rest)" "hd g \<noteq> CHR 0x0A"
    by (cases g; auto)+
  from 2 have b: "s = pre2 @ ''filename='' @ hd g' # (tl g' @ rest2)" "hd g' \<noteq> CHR 0x0A"
    by (cases g'; auto)+
  from m1 [OF b] m2 [OF a] have "length pre = length pre2" by simp
  with 1(1) 2(1) have "pre = pre2" and "g @ rest = g' @ rest2"
    by (auto simp: append_eq_append_conv)
  then have "dot_run (g @ rest) = dot_run (g' @ rest2)" by simp
  with 1 2 show ?thesis by (simp add: dot_run_append)
qed

lemma first_match_first_group: "first_match s = Some g \<Longrightarrow> first_group s g"
proof (induction s)
  case Nil
  then show ?case by simp
next
  case (Cons c cs)
  show ?case
  proof (cases "match_here (c # cs)")
    case (Some g0)
    with Cons.prems have g0: "g0 = g" by simp
    from match_here_SomeD [OF Some] g0 obtain rest where
      "c # cs = [] @ ''filename='' @ g @ rest" "g \<noteq> []" "CHR 0x0A \<notin> set g"
      "rest = [] \<or> hd rest = CHR 0x0A" by auto
    then show ?thesis unfolding first_group_def
      by (intro exI [of _ "[]"] exI [of _ rest]) simp
  next
    case None
    with Cons.prems have "first_match cs = Some g" by simp
    from Cons.IH [OF this] obtain pre rest where 1: "cs = pre @ ''filename='' @ g @ rest"
      "g \<noteq> []" "CHR 0x0A \<notin> set g" "rest = [] \<or> hd rest = CHR 0x0A"
      and m: "\<And>pre' x rest'. cs = pre' @ ''filename='' @ x # rest' \<Longrightarrow> x \<noteq> CHR 0x0A
        \<Longrightarrow> length pre \<le> length pre'"
      unfolding first_group_def by blast
    have min: "length (c # pre) \<le> length pre'"
      if "c # cs = pre' @ ''filename='' @ x # rest'" "x \<noteq> CHR 0x0A" for pre' x rest'
    proof (cases pre')
      case Nil
      with that have "c # cs = ''filename='' @ x # rest'" by simp
      from match_here_NoneD [OF None this that(2)] show ?thesis ..
    next
      case (Cons p ps)
      with that have "cs = ps @ ''filename='' @ x # rest'" by simp
      from m [OF this that(2)] Cons show ?thesis by simp
    qed
    from 1 have "c # cs = (c # pre) @ ''filename='' @ g @ rest" by simp
    with 1 min show ?thesis unfolding first_group_def
      by (intro exI [of _ "c # pre"] exI [of _ rest]) blast
  qed
qed

lemma slice_2_m1_eq: "slice_2_m1 g = butlast (drop 2 g)"
  by (simp add: slice_2_m1_def butlast_conv_take)

lemma get_filename_from_cd_None_iff:
  "get_filename_from_cd cd = None \<longleftrightarrow>
     cd = None \<or> cd = Some [] \<or> (\<exists>s. cd = Some s \<and> \<not> has_filename_match s)"
proof (cases cd)
  case None
  then show ?thesis by (simp add: get_filename_from_cd_def)
next
  case (Some s)
  have "findall_filename s = [] \<longleftrightarrow> \<not> has_filename_match s"
    using findall_first_match [of s] first_match_None_iff [of s]
    by (auto split: list.splits)
  with Some show ?thesis
    by (auto simp: get_filename_from_cd_def Let_def has_filename_match_Nil)
qed

lemma get_filename_from_cd_Some:
  assumes "has_filename_match s"
  shows "\<exists>g. first_group s g \<and> (\<forall>g'. first_group s g' \<longrightarrow> g' = g) \<and>
           get_filename_from_cd (Some s) = Some (butlast (drop 2 g))"
proof -
  from assms have ne: "s \<noteq> []"
    using has_filename_match_Nil by auto
  from assms obtain g where g: "first_match s = Some g"
    using first_match_None_iff [of s] by auto
  then obtain gs where f: "findall_filename s = g # gs"
    using findall_first_match [of s] by (auto split: list.splits)
  have fg: "first_group s g"
    by (rule first_match_first_group [OF g])
  have "get_filename_from_cd (Some s) = Some (butlast (drop 2 g))"
    using ne f by (simp add: get_filename_from_cd_def slice_2_m1_eq)
  with fg first_group_unique [OF _ fg] show ?thesis by blast
qed

text \<open>
  Claim C10. \<open>get_filename_from_cd\<close> returns \<open>None\<close> exactly when its argument is
  \<open>None\<close>, is the empty string, or contains no substring matching \<open>filename=(.+)\<close>;
  otherwise it returns the group of the first match without its first two characters and
  without its last character.
\<close>

theorem get_filename_from_cd_spec:
  "(get_filename_from_cd cd = None \<longleftrightarrow>
      cd = None \<or> cd = Some [] \<or> (\<exists>s. cd = Some s \<and> \<not> has_filename_match s)) \<and>
   (\<forall>s. cd = Some s \<and> has_filename_match s \<longrightarrow>
      (\<exists>g. first_group s g \<and> (\<forall>g'. first_group s g' \<longrightarrow> g' = g) \<and>
           get_filename_from_cd cd = Some (butlast (drop 2 g))))"
  using get_filename_from_cd_None_iff [of cd] get_filename_from_cd_Some by blast

theorem get_filename_from_cd_spec_witness:
  "get_filename_from_cd (Some ''inline'') = None \<and>
   \<not> has_filename_match ''inline'' \<and>
   has_filename_match (''attachment; filename=b'' @ [CHR 0x27] @ ''abc.nc'' @ [CHR 0x27]) \<and>
   (\<exists>g. first_group (''attachment; filename=b'' @ [CHR 0x27] @ ''abc.nc'' @ [CHR 0x27]) g \<and>
        get_filename_from_cd
          (Some (''attachment; filename=b'' @ [CHR 0x27] @ ''abc.nc'' @ [CHR 0x27]))
        = Some (butlast (drop 2 g))) \<and>
   get_filename_from_cd (Some (''attachment; filename=b'' @ [CHR 0x27] @ ''abc.nc'' @ [CHR 0x27]))
     = Some ''abc.nc''"
proof -
  let ?cd = "''attachment; filename=b'' @ [CHR 0x27] @ ''abc.nc'' @ [CHR 0x27]"
  have a: "get_filename_from_cd (Some ''inline'') = None"
    by code_simp
  have b: "has_filename_match ?cd"
    unfolding has_filename_match_def
    by (intro exI [of _ "''attachment; ''"] exI [of _ "CHR ''b''"]
        exI [of _ "[CHR 0x27] @ ''abc.nc'' @ [CHR 0x27]"]) simp
  have c: "get_filename_from_cd (Some ?cd) = Some ''abc.nc''"
    by code_simp
  from get_filename_from_cd_spec [of "Some ''inline''"] a
  have d: "\<not> has_filename_match ''inline''" by simp
  from get_filename_from_cd_spec [of "Some ?cd"] b
  have e: "\<exists>g. first_group ?cd g \<and> get_filename_from_cd (Some ?cd) = Some (butlast (drop 2 g))"
    by blast
  from a b c d e show ?thesis by blast
qed

subsection \<open>Status polling\<close>









text \<open>
  Claim C7. When the first status request is answered by a success response (200) whose
  status field is \<open>completed\<close>, \<open>get_request_status\<close> and \<open>get_order_status\<close> return
  after exactly one request: the exchanges grow by that one request and nothing else.
\<close>

theorem status_polling_one_request:
  assumes "CONST_HTTP_SUCCESS_CODE h = 200" and "headers h = Some hs" and "job_id h = Some jid"
    and "transport e (map fst (exchanges w))
           (Get (broker_endpoint h @ ''/datarequest/status/'' @ jid) hs) = r1"
    and "transport e (map fst (exchanges w))
           (Get (broker_endpoint h @ ''/dataorder/status/'' @ order_id) hs) = r2"
    and "status_code r1 = 200" and "json_field r1 ''status'' = Inr (PStr ''completed'')"
    and "status_code r2 = 200" and "json_field r2 ''status'' = Inr (PStr ''completed'')"
  shows "get_request_status e h w =
           Some (Inr (),
             w\<lparr>exchanges := exchanges w
                  @ [(Get (broker_endpoint h @ ''/datarequest/status/'' @ jid) hs, r1)],
               out := out w @ [Print ''Query successfully submitted. Status is completed'']\<rparr>) \<and>
         get_order_status e h order_id w =
           Some (Inr r2,
             w\<lparr>exchanges := exchanges w
                  @ [(Get (broker_endpoint h @ ''/dataorder/status/'' @ order_id) hs, r2)],
               out := out w @ [Print ''Query successfully submitted. Status is completed'']\<rparr>)"
proof
  show "get_request_status e h w =
           Some (Inr (),
             w\<lparr>exchanges := exchanges w
                  @ [(Get (broker_endpoint h @ ''/datarequest/status/'' @ jid) hs, r1)],
               out := out w @ [Print ''Query successfully submitted. Status is completed'']\<rparr>)"
    unfolding get_request_status_def
    apply (subst request_status_loop.simps)
    apply (simp add: assms http_def Let_def del: append.simps)
    apply (subst request_status_loop.simps)
    apply (simp add: emit_def)
    done
  show "get_order_status e h order_id w =
           Some (Inr r2,
             w\<lparr>exchanges := exchanges w
                  @ [(Get (broker_endpoint h @ ''/dataorder/status/'' @ order_id) hs, r2)],
               out := out w @ [Print ''Query successfully submitted. Status is completed'']\<rparr>)"
    unfolding get_order_status_def
    apply (subst order_status_loop.simps)
    apply (simp add: assms http_def Let_def del: append.simps)
    apply (subst order_status_loop.simps)
    apply (simp add: emit_def)
    done
qed

theorem status_polling_one_request_witness:
  "(case get_request_status (constant_env (status_response ''completed'')) session0 world0 of
      Some (Inr u, w) \<Rightarrow> length (exchanges w) = 1
    | _ \<Rightarrow> False) \<and>
   (case get_order_status (constant_env (status_response ''completed'')) session0 ''order1''
           world0 of
      Some (Inr r, w) \<Rightarrow> length (exchanges w) = 1 \<and> status_code r = 200
    | _ \<Rightarrow> False)"
  using status_polling_one_request [where h = session0 and jid = "''job1''"
      and e = "constant_env (status_response ''completed'')" and w = world0
      and order_id = "''order1''" and ?r1.0 = "status_response ''completed''"
      and ?r2.0 = "status_response ''completed''"]
  by (simp add: session0_def init_def constant_env_def world0_def status_response_def
      json_field_def)

subsection \<open>The chunked download\<close>

lemma emit_simps [simp]:
  "exchanges (emit ev w) = exchanges w" "files (emit ev w) = files w"
  "ticks (emit ev w) = ticks w" "calls (emit ev w) = calls w"
  "out (emit ev w) = out w @ [ev]"
  by (simp_all add: emit_def)

lemma file_write_simps [simp]:
  "exchanges (file_write f c w) = exchanges w" "ticks (file_write f c w) = ticks w"
  "calls (file_write f c w) = calls w" "out (file_write f c w) = out w"
  "files (file_write f c w) =
     (files w)(f \<mapsto> (case files w f of None \<Rightarrow> [] | Some old \<Rightarrow> old) @ c)"
  by (simp_all add: file_write_def)


lemma http_eq:
  "http e rq w = (r, w') \<longleftrightarrow>
     r = transport e (map fst (exchanges w)) rq \<and> w' = w\<lparr>exchanges := exchanges w @ [(rq, r)]\<rparr>"
  by (auto simp: http_def Let_def)


lemma float_overflow_zero [simp]: "\<not> float_overflow 0"
  by (simp add: float_overflow_def)

lemma float_overflow_small: "\<bar>x\<bar> < 2 ^ 64 \<Longrightarrow> float_overflow x = False"
proof -
  assume "\<bar>x\<bar> < 2 ^ 64"
  moreover have "(2::rat) ^ 64 \<le> 2 ^ 1024 - 2 ^ 970" by simp
  ultimately show ?thesis by (simp add: float_overflow_def)
qed











text \<open>
  Claim C4. When the response is a success, the file can be opened, the total length is
  a number other than zero, the stream has a first chunk, the numbers of the progress
  report of that chunk are within the floats, and the clock reading taken for that chunk
  equals the reading taken at the start (elapsed time zero), the throughput computation
  divides by zero: the call raises ZeroDivisionError, after the first chunk was written.
\<close>

theorem downloadFile_zero_elapsed:
  assumes "status_code (transport e (map fst (exchanges w)) (Get url hs)) = 200"
    and "iter_content (transport e (map fst (exchanges w)) (Get url hs)) 64738 = chunk # rest"
    and "can_open e (path_join directory name)"
    and "as_number total_length = Inr n" and "n \<noteq> 0"
    and "\<not> float_overflow (of_int n / (1024 * 1024))"
    and "\<not> float_overflow (50 * of_nat (length chunk) / of_int n)"
    and "\<not> float_overflow (of_nat (length chunk))"
    and "clock e (Suc (ticks w)) - clock e (ticks w) = 0"
  shows "fst (downloadFile e url hs directory (PStr name) total_length w) = Inl ZeroDivisionError \<and>
         files (snd (downloadFile e url hs directory (PStr name) total_length w))
           (realpath e (path_join directory name)) = Some chunk"
proof -
  from assms(4) have "total_length \<noteq> PNone" by auto
  with assms show ?thesis
    by (simp add: downloadFile_def http_def Let_def process_time_def chunk_body_def)
qed

theorem downloadFile_zero_elapsed_witness:
  "fst (downloadFile (stuck_env (stream_response 200 [''ab'', ''cd''])) ''u'' [] ''./data/''
          (PStr ''a.nc'') (PInt 4) world0) = Inl ZeroDivisionError \<and>
   files (snd (downloadFile (stuck_env (stream_response 200 [''ab'', ''cd''])) ''u'' [] ''./data/''
          (PStr ''a.nc'') (PInt 4) world0)) ''./data/a.nc'' = Some ''ab''"
  using downloadFile_zero_elapsed [where e = "stuck_env (stream_response 200 [''ab'', ''cd''])"
      and w = world0 and url = "''u''" and hs = "[]" and chunk = "''ab''" and rest = "[''cd'']"
      and total_length = "PInt 4" and n = 4 and directory = "''./data/''" and name = "''a.nc''"]
  by (simp add: stuck_env_def stream_response_def world0_def path_join_def float_overflow_small)

text \<open>
  Claim C5, as amended. When the response status is not 200, \<open>downloadFile\<close> raises
  nothing, leaves every file as it was and returns \<open>None\<close>. When the status is 200 the
  call never returns \<open>None\<close>: it returns an elapsed time or raises. So the returned
  value does tell the failure from a successful transfer, an empty one included.
\<close>

theorem downloadFile_not_success:
  "(status_code (transport e (map fst (exchanges w)) (Get url hs)) \<noteq> 200 \<longrightarrow>
      fst (downloadFile e url hs directory file_name total_length w) = Inr None \<and>
      files (snd (downloadFile e url hs directory file_name total_length w)) = files w) \<and>
   (status_code (transport e (map fst (exchanges w)) (Get url hs)) = 200 \<longrightarrow>
      fst (downloadFile e url hs directory file_name total_length w) \<noteq> Inr None)"
  by (cases "as_str file_name"; cases "as_number total_length")
    (auto simp: downloadFile_def http_def Let_def process_time_def
       split: prod.splits sum.splits)

theorem downloadFile_not_success_witness:
  "fst (downloadFile (constant_env (stream_response 404 [])) ''u'' [] ''./data/''
          (PStr ''a.nc'') (PInt 4) world0) = Inr None \<and>
   files (snd (downloadFile (constant_env (stream_response 404 [])) ''u'' [] ''./data/''
          (PStr ''a.nc'') (PInt 4) world0)) = files world0 \<and>
   fst (downloadFile (constant_env (stream_response 200 [])) ''u'' [] ''./data/''
          (PStr ''a.nc'') (PInt 4) world0) \<noteq> Inr None"
  using downloadFile_not_success [where e = "constant_env (stream_response 404 [])"
      and w = world0 and url = "''u''" and hs = "[]" and file_name = "PStr ''a.nc''"
      and total_length = "PInt 4" and directory = "''./data/''"]
    downloadFile_not_success [where e = "constant_env (stream_response 200 [])"
      and w = world0 and url = "''u''" and hs = "[]" and file_name = "PStr ''a.nc''"
      and total_length = "PInt 4" and directory = "''./data/''"]
  by (simp add: constant_env_def stream_response_def world0_def)

text \<open>
  A failed call returns \<open>None\<close>; a successful transfer of an empty body returns the
  elapsed time, here 2: the two returned values differ.
\<close>

theorem downloadFile_failure_distinguishable_counterexample:
  "fst (downloadFile (constant_env (stream_response 404 [])) ''u'' [] ''./data/''
          (PStr ''a.nc'') (PInt 0) world0) = Inr None \<and>
   fst (downloadFile (constant_env (stream_response 200 [])) ''u'' [] ''./data/''
          (PStr ''a.nc'') (PInt 0) world0) = Inr (Some 2) \<and>
   fst (downloadFile (constant_env (stream_response 404 [])) ''u'' [] ''./data/''
          (PStr ''a.nc'') (PInt 0) world0)
     \<noteq> fst (downloadFile (constant_env (stream_response 200 [])) ''u'' [] ''./data/''
          (PStr ''a.nc'') (PInt 0) world0)"
  by (simp add: downloadFile_def http_def Let_def process_time_def constant_env_def
      stream_response_def world0_def emit_def)

text \<open>
  The two cases the guard \<open>total_length is not None\<close> does not cover, for every success
  response and every string file name, once the file is open. With \<open>total_length = None\<close> the file size
  cannot be printed: the call raises TypeError before the stream is read. With a total
  length of zero the first chunk of the stream is written and the percentage computation
  then raises ZeroDivisionError.
\<close>

lemma downloadFile_unknown_length:
  assumes "status_code (transport e (map fst (exchanges w)) (Get url hs)) = 200"
    and "can_open e (path_join directory name)"
  shows "fst (downloadFile e url hs directory (PStr name) PNone w) = Inl TypeError"
  using assms by (simp add: downloadFile_def http_def Let_def process_time_def)

lemma downloadFile_zero_length:
  assumes "status_code (transport e (map fst (exchanges w)) (Get url hs)) = 200"
    and "iter_content (transport e (map fst (exchanges w)) (Get url hs)) 64738 = chunk # rest"
    and "can_open e (path_join directory name)"
    and "as_number total_length = Inr 0"
  shows "fst (downloadFile e url hs directory (PStr name) total_length w) = Inl ZeroDivisionError \<and>
         files (snd (downloadFile e url hs directory (PStr name) total_length w))
           (realpath e (path_join directory name)) = Some chunk"
proof -
  from assms(4) have "total_length \<noteq> PNone" by auto
  with assms show ?thesis
    by (simp add: downloadFile_def http_def Let_def process_time_def chunk_body_def)
qed

text \<open>
  Claim C1, at the input where the code departs from it. \<open>downloadFile\<close> is called
  with its default \<open>total_length\<close> on a success response that streams the chunks
  \<open>ab\<close> and \<open>cd\<close>: the call raises ZeroDivisionError after the first chunk, and the
  file holds \<open>ab\<close>, not the whole stream \<open>abcd\<close>.
\<close>

theorem downloadFile_default_length_truncates:
  "fst (downloadFile (constant_env (stream_response 200 [''ab'', ''cd''])) ''u'' [] ''./data/''
          (PStr ''a.nc'') default_total_length world0) = Inl ZeroDivisionError \<and>
   files (snd (downloadFile (constant_env (stream_response 200 [''ab'', ''cd''])) ''u'' []
          ''./data/'' (PStr ''a.nc'') default_total_length world0)) ''./data/a.nc''
     = Some ''ab'' \<and>
   concat (iter_content (stream_response 200 [''ab'', ''cd'']) 64738) = ''abcd''"
  by (simp add: downloadFile_def http_def Let_def process_time_def constant_env_def
      stream_response_def world0_def emit_def chunk_body_def file_write_def path_join_def
      default_total_length_def)

text \<open>
  Claim C3, at the inputs where the code departs from it. With \<open>total_length = None\<close>
  the call raises TypeError when it prints the file size, before any chunk is read: no
  byte-count milestone is ever printed. With \<open>total_length = 0\<close> the first chunk
  reaches the percentage computation, which raises ZeroDivisionError.
\<close>

theorem downloadFile_length_guard_misses:
  "downloadFile (constant_env (stream_response 200 [''ab''])) ''u'' [] ''./data/''
      (PStr ''a.nc'') PNone world0
     = (Inl TypeError,
        world0\<lparr>calls := [(''u'', [], ''./data/'', PStr ''a.nc'', PNone)],
               exchanges := [(Get ''u'' [], stream_response 200 [''ab''])],
               out := [Print ''OK'', Print ''directory'', Print ''Downloading ./data/a.nc''],
               files := [''./data/a.nc'' \<mapsto> []],
               ticks := 1\<rparr>) \<and>
   downloadFile (constant_env (stream_response 200 [''ab''])) ''u'' [] ''./data/''
      (PStr ''a.nc'') (PInt 0) world0
     = (Inl ZeroDivisionError,
        world0\<lparr>calls := [(''u'', [], ''./data/'', PStr ''a.nc'', PInt 0)],
               exchanges := [(Get ''u'' [], stream_response 200 [''ab''])],
               out := [Print ''OK'', Print ''directory'', Print ''Downloading ./data/a.nc'',
                       PrintFileSize 0],
               files := [''./data/a.nc'' \<mapsto> ''ab''],
               ticks := 1\<rparr>)"
  by (simp add: downloadFile_def http_def Let_def process_time_def constant_env_def
      stream_response_def world0_def emit_def chunk_body_def file_write_def path_join_def)


subsection \<open>Orders and downloads\<close>

text \<open>
  Polling an order adds only GET exchanges; it leaves the files and the recorded calls
  alone.
\<close>

lemma order_status_loop_frame:
  assumes "order_status_loop e h oid status resp w = Some (res, w')"
  shows "\<exists>gs. exchanges w' = exchanges w @ gs \<and> (\<forall>x\<in>set gs. is_get (fst x)) \<and>
           calls w' = calls w \<and> files w' = files w"
proof -
  have "\<exists>gs. exchanges (snd y) = exchanges w @ gs \<and> (\<forall>x\<in>set gs. is_get (fst x)) \<and>
           calls (snd y) = calls w \<and> files (snd y) = files w"
    if "order_status_loop e h oid status resp w = Some y" for y
    using that
  proof (induction rule: order_status_loop.raw_induct [rotated, consumes 1, case_names step])
    case (step f e h oid status resp w y)
    show ?case
    proof (cases "status \<noteq> ''completed''")
      case False
      with step.hyps show ?thesis
        by (auto split: option.splits)
    next
      case True
      show ?thesis
      proof (cases "headers h")
        case None
        with True step.hyps show ?thesis by auto
      next
        case (Some hs)
        let ?rq = "Get (broker_endpoint h @ ''/dataorder/status/'' @ oid) hs"
        let ?r = "transport e (map fst (exchanges w)) ?rq"
        let ?w1 = "w\<lparr>exchanges := exchanges w @ [(?rq, ?r)]\<rparr>"
        have hw: "http e ?rq w = (?r, ?w1)" by (simp add: http_eq)
        have g: "is_get ?rq" by (simp add: is_get_def)
        consider (stop) "y = (fst y, ?w1)"
          | (loop) st rs ev where "f e h oid st rs (emit ev ?w1) = Some y"
          using step.hyps True Some hw
          by (cases y) (auto simp del: append.simps split: if_splits sum.splits)
        then show ?thesis
        proof cases
          case stop
          then have "snd y = ?w1" by (metis snd_conv)
          then show ?thesis using g by simp
        next
          case loop
          from step.IH [OF this] obtain gs where
            "exchanges (snd y) = exchanges (emit ev ?w1) @ gs" "\<forall>x\<in>set gs. is_get (fst x)"
            "calls (snd y) = calls (emit ev ?w1)" "files (snd y) = files (emit ev ?w1)"
            by blast
          then show ?thesis using g
            by (intro exI [of _ "(?rq, ?r) # gs"]) simp
        qed
      qed
    qed
  qed
  from this [OF assms] show ?thesis by simp
qed


text \<open>
  One pass of the body of \<open>get_order_ids\<close> that does not raise: it posts the order
  request of the descriptor, adds the descriptor's size, and adds an order id exactly when
  the response has the success code; then \<open>i\<close> is the index of the new order id.
\<close>

lemma order_request_not_get: "order_request h d = Some rq \<Longrightarrow> \<not> is_get rq"
  by (auto simp: order_request_def is_get_def split: option.splits sum.splits)

lemma order_body_spec:
  assumes "order_body e h d i ids sizes w = Some (Inr (ids1, sizes1, r1), w1)"
  shows "\<exists>rq r sz gs.
           order_request h d = Some rq \<and> getitem d ''size'' = Inr sz \<and>
           sizes1 = sizes @ [sz] \<and>
           exchanges w1 = exchanges w @ (rq, r) # gs \<and> (\<forall>x\<in>set gs. is_get (fst x)) \<and>
           calls w1 = calls w \<and> files w1 = files w \<and>
           (if status_code r = CONST_HTTP_SUCCESS_CODE h
            then \<exists>oid s. json_field r ''orderId'' = Inr oid \<and> ids1 = ids @ [oid] \<and>
                   i \<le> length ids \<and> as_str ((ids @ [oid]) ! i) = Inr s
            else ids1 = ids \<and> r1 = r)"
proof -
  from assms obtain jid u sz hs where
    j: "job_id h = Some jid" and u: "getitem d ''url'' = Inr u"
    and sz: "getitem d ''size'' = Inr sz" and hs: "headers h = Some hs"
    by (auto simp: order_body_def split: option.splits sum.splits)
  let ?rq = "Post (broker_endpoint h @ ''/dataorder'') hs (PDict [(''jobId'', PStr jid), (''uri'', u)])"
  let ?r = "transport e (map fst (exchanges w)) ?rq"
  let ?w1 = "w\<lparr>exchanges := exchanges w @ [(?rq, ?r)]\<rparr>"
  have hw: "http e ?rq w = (?r, ?w1)" by (simp add: http_eq)
  have rq: "order_request h d = Some ?rq"
    using j u hs by (simp add: order_request_def)
  show ?thesis
  proof (cases "status_code ?r = CONST_HTTP_SUCCESS_CODE h")
    case False
    with assms j u sz hs hw have "ids1 = ids" "sizes1 = sizes @ [sz]" "r1 = ?r"
      "w1 = emit (PrintUnexpected (status_code ?r)) ?w1"
      by (auto simp: order_body_def simp del: append.simps)
    with rq sz False show ?thesis
      by (intro exI [of _ ?rq] exI [of _ ?r] exI [of _ sz] exI [of _ "[]"]) simp
  next
    case True
    with assms j u sz hs hw obtain oid s w0 where
      o: "json_field ?r ''orderId'' = Inr oid" "i < length (ids @ [oid])"
        "as_str ((ids @ [oid]) ! i) = Inr s"
      and g: "get_order_status e h s w0 = Some (Inr r1, w1)"
      and w0: "exchanges w0 = exchanges ?w1" "calls w0 = calls ?w1" "files w0 = files ?w1"
      and r: "ids1 = ids @ [oid]" "sizes1 = sizes @ [sz]"
      by (auto simp: order_body_def simp del: append.simps
          split: sum.splits if_splits option.splits prod.splits)
    from order_status_loop_frame [OF g [unfolded get_order_status_def]] obtain gs where
      gs: "exchanges w1 = exchanges w0 @ gs" "\<forall>x\<in>set gs. is_get (fst x)"
        "calls w1 = calls w0" "files w1 = files w0"
      by blast
    from o(2) have "i \<le> length ids" by simp
    with rq sz True o r gs w0 show ?thesis
      by (intro exI [of _ ?rq] exI [of _ ?r] exI [of _ sz] exI [of _ gs]) simp
  qed
qed


lemma as_str_Inr: "as_str v = Inr s \<longleftrightarrow> v = PStr s"
  by (cases v) auto

text \<open>
  The whole loop, started with at most \<open>i\<close> order ids: the order POSTs match the
  descriptors one to one, in order; the new order ids belong to the first POSTs, which
  were answered with the success code, and no later POST was.
\<close>

lemma order_loop_response:
  "order_loop e h descs i ids sizes (Some r) w = Some (Inr (ids', sizes', resp'), w')
     \<Longrightarrow> resp' \<noteq> None"
  by (induction descs arbitrary: i ids sizes r w)
    (auto split: option.splits sum.splits prod.splits)

lemma order_loop_spec:
  assumes "order_loop e h descs i ids sizes resp w = Some (Inr (ids', sizes', resp'), w')"
    and "length ids \<le> i"
  shows "\<exists>xs news newids.
      exchanges w' = exchanges w @ xs \<and> calls w' = calls w \<and> files w' = files w \<and>
      sizes' = sizes @ news \<and> ids' = ids @ newids \<and>
      list_all2 (\<lambda>d x. order_request h d = Some (fst x)) descs
        (filter (\<lambda>x. \<not> is_get (fst x)) xs) \<and>
      list_all2 (\<lambda>d s. getitem d ''size'' = Inr s) descs news \<and>
      length newids \<le> length descs \<and>
      list_all2 (\<lambda>oid x. status_code (snd x) = CONST_HTTP_SUCCESS_CODE h \<and>
                   json_field (snd x) ''orderId'' = Inr oid \<and> (\<exists>s. oid = PStr s))
        newids (take (length newids) (filter (\<lambda>x. \<not> is_get (fst x)) xs)) \<and>
      (\<forall>x\<in>set (drop (length newids) (filter (\<lambda>x. \<not> is_get (fst x)) xs)).
          status_code (snd x) \<noteq> CONST_HTTP_SUCCESS_CODE h) \<and>
      (newids \<noteq> [] \<longrightarrow> length ids = i) \<and>
      (descs \<noteq> [] \<longrightarrow> resp' \<noteq> None)"
  using assms
proof (induction descs arbitrary: i ids sizes resp w)
  case Nil
  then show ?case by simp
next
  case (Cons d rest)
  let ?P = "\<lambda>x :: request \<times> response. \<not> is_get (fst x)"
  from Cons.prems(1) obtain ids1 sizes1 r1 w1 where
    b: "order_body e h d i ids sizes w = Some (Inr (ids1, sizes1, r1), w1)"
    and l: "order_loop e h rest (i + 1) ids1 sizes1 (Some r1) w1
              = Some (Inr (ids', sizes', resp'), w')"
    by (auto split: option.splits sum.splits prod.splits)
  from order_body_spec [OF b] obtain rq r sz gs where
    rq: "order_request h d = Some rq" and sz: "getitem d ''size'' = Inr sz"
    and s1: "sizes1 = sizes @ [sz]"
    and x1: "exchanges w1 = exchanges w @ (rq, r) # gs" "\<forall>x\<in>set gs. is_get (fst x)"
      "calls w1 = calls w" "files w1 = files w"
    and c: "if status_code r = CONST_HTTP_SUCCESS_CODE h
            then \<exists>oid s. json_field r ''orderId'' = Inr oid \<and> ids1 = ids @ [oid] \<and>
                   i \<le> length ids \<and> as_str ((ids @ [oid]) ! i) = Inr s
            else ids1 = ids \<and> r1 = r"
    by blast
  have fgs: "filter ?P gs = []"
    using x1(2) by (simp add: filter_empty_conv)
  have nrq: "?P (rq, r)"
    using order_request_not_get [OF rq] by simp
  have le1: "length ids1 \<le> i + 1"
    using c Cons.prems(2) by (auto split: if_splits)
  from Cons.IH [OF l le1] obtain xs news newids where
    ih: "exchanges w' = exchanges w1 @ xs" "calls w' = calls w1" "files w' = files w1"
      "sizes' = sizes1 @ news" "ids' = ids1 @ newids"
      "list_all2 (\<lambda>d x. order_request h d = Some (fst x)) rest (filter ?P xs)"
      "list_all2 (\<lambda>d s. getitem d ''size'' = Inr s) rest news"
      "length newids \<le> length rest"
      "list_all2 (\<lambda>oid x. status_code (snd x) = CONST_HTTP_SUCCESS_CODE h \<and>
                   json_field (snd x) ''orderId'' = Inr oid \<and> (\<exists>s. oid = PStr s))
        newids (take (length newids) (filter ?P xs))"
      "\<forall>x\<in>set (drop (length newids) (filter ?P xs)).
          status_code (snd x) \<noteq> CONST_HTTP_SUCCESS_CODE h"
      "newids \<noteq> [] \<longrightarrow> length ids1 = i + 1"
    by blast
  have rn: "resp' \<noteq> None"
    by (rule order_loop_response [OF l])
  let ?xs = "(rq, r) # gs @ xs"
  have fxs: "filter ?P ?xs = (rq, r) # filter ?P xs"
    using nrq fgs by simp
  show ?case
  proof (cases "status_code r = CONST_HTTP_SUCCESS_CODE h")
    case True
    with c obtain oid s where o: "json_field r ''orderId'' = Inr oid" "ids1 = ids @ [oid]"
      "i \<le> length ids" "as_str ((ids @ [oid]) ! i) = Inr s" by auto
    with Cons.prems(2) have li: "length ids = i" by simp
    from li have "(ids @ [oid]) ! i = oid" by (simp add: nth_append)
    with o(4) have os: "oid = PStr s" by (simp add: as_str_Inr)
    show ?thesis
      apply (rule exI [of _ ?xs], rule exI [of _ "sz # news"], rule exI [of _ "oid # newids"])
      apply (simp only: fxs)
      using ih x1 s1 o(1,2) li os True rq sz rn
      apply simp
      done
  next
    case False
    with c have i1: "ids1 = ids" by simp
    with ih(11) Cons.prems(2) have nn: "newids = []" by auto
    show ?thesis
      apply (rule exI [of _ ?xs], rule exI [of _ "sz # news"], rule exI [of _ "[]"])
      apply (simp only: fxs)
      using ih x1 s1 i1 nn False rq sz rn
      apply simp
      done
  qed
qed


lemma posts_between_append:
  "exchanges w' = exchanges w @ xs \<Longrightarrow> posts_between w w' = filter (\<lambda>x. \<not> is_get (fst x)) xs"
  by (simp add: posts_between_def)

lemma get_order_ids_spec:
  assumes "results h = Some res" and "getitem res ''content'' = Inr content"
    and "py_iter content = Inr descs"
    and "get_order_ids e h w = Some (Inr h', w')"
  shows "\<exists>sizes ids r.
      h' = h\<lparr>order_ids := Some ids, order_sizes := Some sizes, order_status_response := Some r\<rparr> \<and>
      calls w' = calls w \<and> files w' = files w \<and>
      list_all2 (\<lambda>d s. getitem d ''size'' = Inr s) descs sizes \<and>
      list_all2 (\<lambda>d x. order_request h d = Some (fst x)) descs (posts_between w w') \<and>
      length ids \<le> length descs \<and>
      list_all2 (\<lambda>oid x. status_code (snd x) = CONST_HTTP_SUCCESS_CODE h \<and>
                   json_field (snd x) ''orderId'' = Inr oid \<and> (\<exists>s. oid = PStr s))
        ids (take (length ids) (posts_between w w')) \<and>
      (\<forall>x\<in>set (drop (length ids) (posts_between w w')).
          status_code (snd x) \<noteq> CONST_HTTP_SUCCESS_CODE h)"
proof -
  from assms obtain ids sizes r where
    l: "order_loop e h descs 0 [] [] None w = Some (Inr (ids, sizes, Some r), w')"
    and h': "h' = h\<lparr>order_ids := Some ids, order_sizes := Some sizes,
                     order_status_response := Some r\<rparr>"
    by (auto simp: get_order_ids_def split: option.splits sum.splits prod.splits)
  from order_loop_spec [OF l] obtain xs where
    "exchanges w' = exchanges w @ xs" "calls w' = calls w" "files w' = files w"
    "list_all2 (\<lambda>d x. order_request h d = Some (fst x)) descs
        (filter (\<lambda>x. \<not> is_get (fst x)) xs)"
    "list_all2 (\<lambda>d s. getitem d ''size'' = Inr s) descs sizes"
    "length ids \<le> length descs"
    "list_all2 (\<lambda>oid x. status_code (snd x) = CONST_HTTP_SUCCESS_CODE h \<and>
                   json_field (snd x) ''orderId'' = Inr oid \<and> (\<exists>s. oid = PStr s))
        ids (take (length ids) (filter (\<lambda>x. \<not> is_get (fst x)) xs))"
    "\<forall>x\<in>set (drop (length ids) (filter (\<lambda>x. \<not> is_get (fst x)) xs)).
          status_code (snd x) \<noteq> CONST_HTTP_SUCCESS_CODE h"
    by auto
  with h' show ?thesis
    by (intro exI [of _ sizes] exI [of _ ids] exI [of _ r])
      (simp add: posts_between_append [of w' w xs])
qed

lemma filter_take_drop:
  assumes "\<forall>x\<in>set (take m xs). P x" "\<forall>x\<in>set (drop m xs). \<not> P x"
  shows "filter P xs = take m xs"
proof -
  have "filter P xs = filter P (take m xs) @ filter P (drop m xs)"
    by (metis append_take_drop_id filter_append)
  with assms show ?thesis
    by (simp add: filter_empty_conv filter_id_conv)
qed

lemma list_all2_right:
  "list_all2 (\<lambda>a b. Q b \<and> R a b) xs ys \<Longrightarrow> \<forall>y\<in>set ys. Q y"
  by (induction rule: list_all2_induct) auto

text \<open>
  \<open>get_filenames\<close> gives the file names of the descriptors, in order; each pass of the
  body of \<open>download_data\<close> that gets as far as \<open>downloadFile\<close> records one call.
\<close>

lemma filenames_loop_spec:
  "filenames_loop acc fs = Inr names \<Longrightarrow>
     \<exists>new. names = acc @ new \<and> list_all2 (\<lambda>d n. getitem d ''filename'' = Inr n) fs new"
proof (induction fs arbitrary: acc)
  case Nil
  then show ?case by simp
next
  case (Cons d rest)
  from Cons.prems obtain n where n: "getitem d ''filename'' = Inr n"
    and l: "filenames_loop (acc @ [n]) rest = Inr names"
    by (auto split: sum.splits)
  from Cons.IH [OF l] obtain new where "names = (acc @ [n]) @ new"
    "list_all2 (\<lambda>d n. getitem d ''filename'' = Inr n) rest new" by blast
  with n show ?case
    by (intro exI [of _ "n # new"]) simp
qed

lemma get_filenames_spec:
  assumes "results h = Some res" and "getitem res ''content'' = Inr content"
    and "py_iter content = Inr descs" and "get_filenames h = Inr names"
  shows "list_all2 (\<lambda>d n. getitem d ''filename'' = Inr n) descs names"
  using assms filenames_loop_spec [of "[]" descs names]
  by (auto simp: get_filenames_def)




text \<open>Evaluating the examples: an order whose first status is \<open>completed\<close>.\<close>

lemma get_order_status_completed:
  assumes "headers h = Some hs"
    and "status_code (transport e (map fst (exchanges w))
           (Get (broker_endpoint h @ ''/dataorder/status/'' @ order_id) hs))
         = CONST_HTTP_SUCCESS_CODE h"
    and "json_field (transport e (map fst (exchanges w))
           (Get (broker_endpoint h @ ''/dataorder/status/'' @ order_id) hs)) ''status''
         = Inr (PStr ''completed'')"
  shows "get_order_status e h order_id w =
           Some (Inr (transport e (map fst (exchanges w))
                        (Get (broker_endpoint h @ ''/dataorder/status/'' @ order_id) hs)),
             w\<lparr>exchanges := exchanges w
                  @ [(Get (broker_endpoint h @ ''/dataorder/status/'' @ order_id) hs,
                      transport e (map fst (exchanges w))
                        (Get (broker_endpoint h @ ''/dataorder/status/'' @ order_id) hs))],
               out := out w @ [Print ''Query successfully submitted. Status is completed'']\<rparr>)"
  unfolding get_order_status_def
  apply (subst order_status_loop.simps)
  apply (simp add: assms http_def Let_def del: append.simps)
  apply (subst order_status_loop.simps)
  apply (simp add: emit_def)
  done

lemmas example_defs = echo_env_def echo_transport_def file_desc_def session_with_def
  session0_def init_def world0_def get_order_ids_def order_body_def http_def emit_def
  json_field_def Let_def download_data_def get_filenames_def download_body_def
  downloadFile_def chunk_body_def isfile_def path_join_def process_time_def file_write_def
  py_int_def str_mul_def posts_between_def is_get_def float_overflow_small

lemma download_call_of_update [simp]:
  "download_call_of
     (h\<lparr>order_ids := a, order_sizes := b, order_status_response := c\<rparr>) = download_call_of h"
  by (simp add: download_call_of_def fun_eq_iff)

text \<open>
  Claim C9, as amended. After \<open>get_order_ids\<close> returns, \<open>order_sizes\<close> holds exactly
  one entry per result descriptor (the descriptor's size), one order POST was made per
  descriptor, in order, and \<open>order_ids\<close> holds one entry per POST answered with the
  success code; so when some POST was not, \<open>order_ids\<close> is strictly shorter than
  \<open>order_sizes\<close>. The stored order ids are those returned for the first descriptors, in
  order: the \<open>k\<close>-th order id is the one issued for the \<open>k\<close>-th descriptor, and sits at
  the index of that descriptor's size.
\<close>

theorem get_order_ids_lists:
  assumes "results h = Some res" and "getitem res ''content'' = Inr content"
    and "py_iter content = Inr descs"
    and "get_order_ids e h w = Some (Inr h', w')"
  shows "\<exists>sizes ids.
      order_sizes h' = Some sizes \<and> order_ids h' = Some ids \<and>
      list_all2 (\<lambda>d s. getitem d ''size'' = Inr s) descs sizes \<and>
      list_all2 (\<lambda>d x. order_request h d = Some (fst x)) descs (posts_between w w') \<and>
      length ids = length (filter (\<lambda>x. status_code (snd x) = CONST_HTTP_SUCCESS_CODE h)
                             (posts_between w w')) \<and>
      list_all2 (\<lambda>oid x. status_code (snd x) = CONST_HTTP_SUCCESS_CODE h \<and>
                   json_field (snd x) ''orderId'' = Inr oid)
        ids (take (length ids) (posts_between w w')) \<and>
      ((\<exists>x\<in>set (posts_between w w'). status_code (snd x) \<noteq> CONST_HTTP_SUCCESS_CODE h)
         \<longrightarrow> length ids < length sizes)"
proof -
  let ?ps = "posts_between w w'"
  let ?ok = "\<lambda>x :: request \<times> response. status_code (snd x) = CONST_HTTP_SUCCESS_CODE h"
  from get_order_ids_spec [OF assms] obtain sizes ids r where
    h': "h' = h\<lparr>order_ids := Some ids, order_sizes := Some sizes,
                 order_status_response := Some r\<rparr>"
    and sz: "list_all2 (\<lambda>d s. getitem d ''size'' = Inr s) descs sizes"
    and ps: "list_all2 (\<lambda>d x. order_request h d = Some (fst x)) descs ?ps"
    and m: "length ids \<le> length descs"
    and al: "list_all2 (\<lambda>oid x. ?ok x \<and> json_field (snd x) ''orderId'' = Inr oid \<and>
                (\<exists>s. oid = PStr s)) ids (take (length ids) ?ps)"
    and bad: "\<forall>x\<in>set (drop (length ids) ?ps). \<not> ?ok x"
    by blast
  from al have good: "\<forall>x\<in>set (take (length ids) ?ps). ?ok x"
    by (rule list_all2_right)
  have len: "length ?ps = length descs" "length sizes = length descs"
    using list_all2_lengthD [OF ps] list_all2_lengthD [OF sz] by simp_all
  have fl: "filter ?ok ?ps = take (length ids) ?ps"
    by (rule filter_take_drop [OF good bad])
  have c: "length ids = length (filter ?ok ?ps)"
    using fl m len by simp
  have al': "list_all2 (\<lambda>oid x. ?ok x \<and> json_field (snd x) ''orderId'' = Inr oid)
               ids (take (length ids) ?ps)"
    using al by (rule list_all2_mono) simp
  have short: "length ids < length sizes" if "\<exists>x\<in>set ?ps. \<not> ?ok x"
  proof (rule ccontr)
    assume "\<not> length ids < length sizes"
    with m len have "length ids = length ?ps" by simp
    with good have "\<forall>x\<in>set ?ps. ?ok x" by simp
    with that show False by blast
  qed
  from h' sz ps c al' short show ?thesis by auto
qed


theorem get_order_ids_lists_witness:
  "\<exists>h' w' sizes ids.
     get_order_ids (echo_env [PStr ''url0''])
       (session_with [file_desc ''a.nc'' 4 ''url0'']) world0 = Some (Inr h', w') \<and>
     order_sizes h' = Some sizes \<and> order_ids h' = Some ids \<and>
     length sizes = 1 \<and> length ids = 0"
proof -
  let ?e = "echo_env [PStr ''url0'']"
  let ?descs = "[file_desc ''a.nc'' 4 ''url0'']"
  let ?h = "session_with ?descs"
  have "\<exists>h' w'. get_order_ids ?e ?h world0 = Some (Inr h', w') \<and>
      map (\<lambda>x. status_code (snd x)) (posts_between world0 w') = [500]"
    by (simp add: example_defs get_order_status_completed)
  then obtain h' w' where 1: "get_order_ids ?e ?h world0 = Some (Inr h', w')"
    and 2: "map (\<lambda>x. status_code (snd x)) (posts_between world0 w') = [500]"
    by (elim exE conjE)
  have c: "CONST_HTTP_SUCCESS_CODE ?h = 200"
    by (simp add: session_with_def session0_def init_def)
  from 2 have 3: "\<exists>x\<in>set (posts_between world0 w').
      status_code (snd x) \<noteq> CONST_HTTP_SUCCESS_CODE ?h"
    unfolding c by (cases "posts_between world0 w'") auto
  from 2 have 4: "filter (\<lambda>x. status_code (snd x) = CONST_HTTP_SUCCESS_CODE ?h)
      (posts_between world0 w') = []"
    unfolding c by (cases "posts_between world0 w'") auto
  have r: "results ?h = Some (PDict [(''content'', PList ?descs)])"
    by (simp add: session_with_def)
  have g: "getitem (PDict [(''content'', PList ?descs)]) ''content'' = Inr (PList ?descs)"
    by simp
  have i: "py_iter (PList ?descs) = Inr ?descs"
    by simp
  from get_order_ids_lists [OF r g i 1] obtain sizes ids where
    s: "order_sizes h' = Some sizes" "order_ids h' = Some ids"
    "list_all2 (\<lambda>d s. getitem d ''size'' = Inr s) ?descs sizes"
    "length ids = length (filter (\<lambda>x. status_code (snd x) = CONST_HTTP_SUCCESS_CODE ?h)
      (posts_between world0 w'))"
    by (elim exE conjE)
  from s(3) have "length sizes = 1"
    by (auto dest: list_all2_lengthD)
  moreover from s(4) 4 have "length ids = 0" by simp
  ultimately show ?thesis using 1 s(1,2) by blast
qed

text \<open>
  Two result descriptors; the service accepts the first order and refuses the second.
  \<open>get_order_ids\<close> returns one order id and two sizes, and the order id sits at the
  index of the descriptor it was issued for: \<open>download_data\<close> downloads it under that
  descriptor's file name and size. Nothing is shifted.
\<close>

theorem refused_last_order_counterexample:
  "(case get_order_ids (echo_env [PStr ''url1''])
           (session_with [file_desc ''a.nc'' 10 ''url0'', file_desc ''b.nc'' 20 ''url1''])
           world0 of
      Some (Inr h', w') \<Rightarrow>
        map (\<lambda>x. status_code (snd x)) (posts_between world0 w') = [200, 500] \<and>
        map (\<lambda>x. json_field (snd x) ''orderId'') (take 1 (posts_between world0 w'))
          = [Inr (PStr ''url0'')] \<and>
        order_ids h' = Some [PStr ''url0''] \<and>
        order_sizes h' = Some [PInt 10, PInt 20] \<and>
        calls (snd (download_data (echo_env [PStr ''url1'']) h' w')) =
          [(''https://wekeo-broker.apps.mercator.dpi.wekeo.eu/databroker/dataorder/download/url0'',
            [(''Authorization'', ''Bearer t''), (''Accept'', ''application/json'')],
            ''./data/'', PStr ''a.nc'', PInt 10)]
    | _ \<Rightarrow> False)"
  by (simp add: example_defs get_order_status_completed)

text \<open>
  When the service refuses the first order and accepts the second, \<open>order_ids[i]\<close> is
  out of range: \<open>get_order_ids\<close> raises IndexError and leaves the session as it was.
\<close>

lemma example_order_after_refusal:
  "(case get_order_ids (echo_env [PStr ''url0''])
           (session_with [file_desc ''a.nc'' 10 ''url0'', file_desc ''b.nc'' 20 ''url1''])
           world0 of
      Some (Inl (err, h'), w') \<Rightarrow>
        err = IndexError \<and>
        h' = session_with [file_desc ''a.nc'' 10 ''url0'', file_desc ''b.nc'' 20 ''url1'']
    | _ \<Rightarrow> False)"
  by (simp add: example_defs get_order_status_completed)















text \<open>
  Two runs that the premises leave out, each with two accepted orders. When the download
  directory is the working directory, the first download leaves the file \<open>./a.nc\<close>
  behind, and the \<open>print\<close> after it adds a string and a response: TypeError, after
  one download. When the listed size of the first file is zero, its download raises
  ZeroDivisionError on the first chunk, and the second download is not attempted.
\<close>

lemma example_download_into_cwd:
  "(case get_order_ids (echo_env [])
           ((session_with [file_desc ''a.nc'' 4 ''url0'', file_desc ''b.nc'' 4 ''url1''])
              \<lparr>download_dir_path := ''./''\<rparr>) world0 of
      Some (Inr h', w') \<Rightarrow>
        order_ids h' = Some [PStr ''url0'', PStr ''url1''] \<and>
        fst (download_data (echo_env []) h' w') = Inl TypeError \<and>
        length (calls (snd (download_data (echo_env []) h' w'))) = 1
    | _ \<Rightarrow> False)"
  by (simp add: example_defs get_order_status_completed)

lemma example_listed_size_zero:
  "(case get_order_ids (echo_env [])
           (session_with [file_desc ''a.nc'' 0 ''url0'', file_desc ''b.nc'' 4 ''url1''])
           world0 of
      Some (Inr h', w') \<Rightarrow>
        order_ids h' = Some [PStr ''url0'', PStr ''url1''] \<and>
        fst (download_data (echo_env []) h' w') = Inl ZeroDivisionError \<and>
        length (calls (snd (download_data (echo_env []) h' w'))) = 1
    | _ \<Rightarrow> False)"
  by (simp add: example_defs get_order_status_completed)


end
